theory Spec2Isabelle
  imports Main "HOL-Library.Sublist" "HOL-Library.Char_ord" "HOL-Library.List_Lexorder"
    "HOL-Library.Multiset"
begin

unbundle bit_operations_syntax

section \<open>The Python primitives that app.py relies on\<close>

text \<open>
  A Python \<open>str\<close> is modelled as a HOL \<open>string\<close>, each \<open>char\<close> standing for the
  code point of the same number (U+0000 .. U+00FF). Python integers are HOL integers.
  An exception is a value of \<open>py_error\<close>; a call that may raise returns
  \<open>py_error + 'a\<close>, with \<open>Inl\<close> for the exception.
\<close>

datatype py_error =
    ValueError
  | AddressValueError
  | NetmaskValueError
  | IntegrityError
  | IndexError
  | UnicodeError
  | TypeError
  | OSError
  | herror
  | gaierror
  | FileNotFoundError
  | TimeoutExpired


text \<open>The socket errors \<open>herror\<close> and \<open>gaierror\<close> are subclasses of \<open>OSError\<close>, as
  \<open>FileNotFoundError\<close> is: \<open>except (socket.herror, socket.gaierror, OSError)\<close> catches
  these four and nothing else of \<open>py_error\<close>.\<close>

definition is_OSError :: "py_error \<Rightarrow> bool" where
  "is_OSError e = (e = OSError \<or> e = herror \<or> e = gaierror \<or> e = FileNotFoundError)"

text \<open>The \<open>except (AddressValueError, NetmaskValueError)\<close> clause of the ipaddress module.\<close>

definition is_ip_error :: "py_error \<Rightarrow> bool" where
  "is_ip_error e = (e = AddressValueError \<or> e = NetmaskValueError)"

subsection \<open>str methods\<close>

text \<open>\<open>str.isspace\<close> on one character: the whitespace code points below U+0100.\<close>

definition py_isspace :: "char \<Rightarrow> bool" where
  "py_isspace c =
     (let n = (of_char c :: nat)
      in (9 \<le> n \<and> n \<le> 13) \<or> (28 \<le> n \<and> n \<le> 32) \<or> n = 133 \<or> n = 160)"

definition lstrip :: "string \<Rightarrow> string" where
  "lstrip s = dropWhile py_isspace s"

definition rstrip :: "string \<Rightarrow> string" where
  "rstrip s = rev (dropWhile py_isspace (rev s))"

text \<open>\<open>s.strip()\<close>\<close>

definition strip :: "string \<Rightarrow> string" where
  "strip s = rstrip (lstrip s)"

text \<open>\<open>s.split(sep)\<close> for a separator of one character: one more piece than there are
  separators, empty pieces kept.\<close>

fun py_split :: "char \<Rightarrow> string \<Rightarrow> string list" where
  "py_split sep [] = [[]]"
| "py_split sep (c # cs) =
     (if c = sep then [] # py_split sep cs
      else (case py_split sep cs of
              [] \<Rightarrow> [[c]]
            | w # ws \<Rightarrow> (c # w) # ws))"

text \<open>\<open>s.split(sep, maxsplit=1)\<close>\<close>

definition py_split1 :: "char \<Rightarrow> string \<Rightarrow> string list" where
  "py_split1 sep s =
     (if sep \<in> set s
      then [takeWhile (\<lambda>c. c \<noteq> sep) s, tl (dropWhile (\<lambda>c. c \<noteq> sep) s)]
      else [s])"

text \<open>\<open>s.partition(sep)\<close>: the text before the first separator, whether a separator was
  found, and the text after it.\<close>

definition py_partition :: "char \<Rightarrow> string \<Rightarrow> string \<times> bool \<times> string" where
  "py_partition sep s =
     (if sep \<in> set s
      then (takeWhile (\<lambda>c. c \<noteq> sep) s, True, tl (dropWhile (\<lambda>c. c \<noteq> sep) s))
      else (s, False, []))"

text \<open>\<open>sep.join(parts)\<close>\<close>

fun py_join :: "string \<Rightarrow> string list \<Rightarrow> string" where
  "py_join sep [] = []"
| "py_join sep [p] = p"
| "py_join sep (p # q # ps) = p @ sep @ py_join sep (q # ps)"

definition startswith :: "string \<Rightarrow> string \<Rightarrow> bool" where
  "startswith s p = prefix p s"


definition ascii_digit :: "char \<Rightarrow> bool" where
  "ascii_digit c = (let n = (of_char c :: nat) in 48 \<le> n \<and> n \<le> 57)"

text \<open>\<open>str.isdigit\<close> on one character: below U+0100 the ASCII digits and the
  superscripts two, three and one (U+00B2, U+00B3, U+00B9).\<close>

definition py_isdigit_char :: "char \<Rightarrow> bool" where
  "py_isdigit_char c =
     (let n = (of_char c :: nat) in (48 \<le> n \<and> n \<le> 57) \<or> n = 178 \<or> n = 179 \<or> n = 185)"

text \<open>\<open>s.isdigit()\<close>: false on the empty string.\<close>

definition isdigit :: "string \<Rightarrow> bool" where
  "isdigit s = (s \<noteq> [] \<and> list_all py_isdigit_char s)"

definition isascii :: "string \<Rightarrow> bool" where
  "isascii s = list_all (\<lambda>c. (of_char c :: nat) < 128) s"

definition digit_val :: "char \<Rightarrow> int" where
  "digit_val c = int (of_char c) - 48"

definition int_of_digits :: "string \<Rightarrow> int" where
  "int_of_digits s = foldl (\<lambda>acc c. 10 * acc + digit_val c) 0 s"

text \<open>
  \<open>int(s)\<close> on a string of digits, which is all app.py and ipaddress pass to it behind
  their \<open>isdigit\<close> guards. A superscript digit is no decimal digit and raises, and so
  does a string of more than 4300 digits (the interpreter's default limit on integer
  string conversion). Signs, underscores and surrounding whitespace, which \<open>int\<close> also
  reads, are not modelled: no call of the program reaches them under the hypotheses of
  the theorems below.
\<close>

definition max_str_digits :: nat where
  "max_str_digits = 4300"

definition py_int :: "string \<Rightarrow> py_error + int" where
  "py_int s =
     (if s \<noteq> [] \<and> list_all ascii_digit s \<and> length s \<le> max_str_digits
      then Inr (int_of_digits s)
      else Inl ValueError)"

definition digit_char :: "nat \<Rightarrow> char" where
  "digit_char d = char_of (48 + d)"

text \<open>\<open>str(n)\<close> for a natural number.\<close>

fun str_nat :: "nat \<Rightarrow> string" where
  "str_nat n = (if n < 10 then [digit_char n] else str_nat (n div 10) @ [digit_char (n mod 10)])"

declare str_nat.simps [simp del]

text \<open>\<open>str(n)\<close> for an integer.\<close>

definition py_str :: "int \<Rightarrow> string" where
  "py_str n = (if n < 0 then CHR ''-'' # str_nat (nat (- n)) else str_nat (nat n))"

text \<open>Running a fallible function over a list, as \<open>map\<close> under a \<open>try\<close> does: the first
  exception ends it.\<close>

fun try_map :: "('a \<Rightarrow> py_error + 'b) \<Rightarrow> 'a list \<Rightarrow> py_error + 'b list" where
  "try_map f [] = Inr []"
| "try_map f (x # xs) =
     (case f x of
        Inl e \<Rightarrow> Inl e
      | Inr y \<Rightarrow> (case try_map f xs of Inl e \<Rightarrow> Inl e | Inr ys \<Rightarrow> Inr (y # ys)))"

subsection \<open>The ipaddress module: IPv4\<close>

text \<open>
  The standard library's \<open>ipaddress\<close> module, as far as \<open>ip_address\<close> and
  \<open>ip_network\<close> on strings use it. Each function keeps the module's name and the order
  of its checks. An address is its integer \<open>_ip\<close>.
\<close>

text \<open>\<open>int.from_bytes(bs, 'big')\<close>\<close>

definition int_from_bytes :: "int list \<Rightarrow> int" where
  "int_from_bytes bs = foldl (\<lambda>acc b. acc * 256 + b) 0 bs"

text \<open>\<open>n.to_bytes(4, 'big')\<close> for \<open>0 \<le> n < 2 ^ 32\<close>\<close>

definition to_bytes4 :: "int \<Rightarrow> int list" where
  "to_bytes4 n = [n div 2 ^ 24 mod 256, n div 2 ^ 16 mod 256, n div 2 ^ 8 mod 256, n mod 256]"

definition parse_octet :: "string \<Rightarrow> py_error + int" where
  "parse_octet octet_str =
     (if octet_str = [] then Inl ValueError
      else if \<not> (isascii octet_str \<and> isdigit octet_str) then Inl ValueError
      else if length octet_str > 3 then Inl ValueError
      else if octet_str \<noteq> ''0'' \<and> hd octet_str = CHR ''0'' then Inl ValueError
      else (case py_int octet_str of
              Inl e \<Rightarrow> Inl e
            | Inr octet_int \<Rightarrow> if octet_int > 255 then Inl ValueError else Inr octet_int))"

text \<open>\<open>_BaseV4._ip_int_from_string\<close>: any \<open>ValueError\<close> of an octet is raised again
  as \<open>AddressValueError\<close>.\<close>

definition v4_ip_int_from_string :: "string \<Rightarrow> py_error + int" where
  "v4_ip_int_from_string ip_str =
     (if ip_str = [] then Inl AddressValueError
      else let octets = py_split CHR ''.'' ip_str
           in if length octets \<noteq> 4 then Inl AddressValueError
              else (case try_map parse_octet octets of
                      Inl e \<Rightarrow> Inl AddressValueError
                    | Inr bs \<Rightarrow> Inr (int_from_bytes bs)))"

text \<open>\<open>IPv4Address(addr_str)\<close> on a string.\<close>

definition IPv4Address_init :: "string \<Rightarrow> py_error + int" where
  "IPv4Address_init addr_str =
     (if CHR ''/'' \<in> set addr_str then Inl AddressValueError
      else v4_ip_int_from_string addr_str)"

text \<open>\<open>_BaseV4._string_from_ip_int\<close>, which is \<open>str\<close> of an IPv4 address.\<close>

definition v4_string_from_ip_int :: "int \<Rightarrow> string" where
  "v4_string_from_ip_int ip_int = py_join ''.'' (map py_str (to_bytes4 ip_int))"

definition V4_ALL_ONES :: int where
  "V4_ALL_ONES = 2 ^ 32 - 1"

definition V6_ALL_ONES :: int where
  "V6_ALL_ONES = 2 ^ 128 - 1"

definition ip_int_from_prefix :: "int \<Rightarrow> nat \<Rightarrow> int" where
  "ip_int_from_prefix all_ones prefixlen = all_ones XOR (drop_bit prefixlen all_ones)"

fun nat_bit_length :: "nat \<Rightarrow> nat" where
  "nat_bit_length n = (if n = 0 then 0 else Suc (nat_bit_length (n div 2)))"

declare nat_bit_length.simps [simp del]

text \<open>\<open>n.bit_length()\<close>: the bits of the absolute value.\<close>

definition bit_length :: "int \<Rightarrow> nat" where
  "bit_length n = nat_bit_length (nat \<bar>n\<bar>)"

definition count_righthand_zero_bits :: "int \<Rightarrow> nat \<Rightarrow> nat" where
  "count_righthand_zero_bits number bits =
     (if number = 0 then bits
      else min bits (bit_length (NOT number AND (number - 1))))"

text \<open>\<open>_prefix_from_ip_int\<close>, which only the IPv4 classes call (\<open>_max_prefixlen = 32\<close>).\<close>

definition prefix_from_ip_int :: "int \<Rightarrow> py_error + nat" where
  "prefix_from_ip_int ip_int =
     (let trailing_zeroes = count_righthand_zero_bits ip_int 32;
          prefixlen = 32 - trailing_zeroes;
          leading_ones = drop_bit trailing_zeroes ip_int;
          all_ones = push_bit prefixlen 1 - 1
      in if leading_ones \<noteq> all_ones then Inl ValueError else Inr prefixlen)"

text \<open>\<open>_prefix_from_prefix_string\<close>, with the class's \<open>_max_prefixlen\<close> as a parameter.\<close>

definition prefix_from_prefix_string :: "nat \<Rightarrow> string \<Rightarrow> py_error + nat" where
  "prefix_from_prefix_string max_prefixlen prefixlen_str =
     (if \<not> (isascii prefixlen_str \<and> isdigit prefixlen_str) then Inl NetmaskValueError
      else (case py_int prefixlen_str of
              Inl e \<Rightarrow> Inl NetmaskValueError
            | Inr prefixlen \<Rightarrow>
                if \<not> (0 \<le> prefixlen \<and> prefixlen \<le> int max_prefixlen) then Inl NetmaskValueError
                else Inr (nat prefixlen)))"

text \<open>\<open>_prefix_from_ip_string\<close>: a dotted netmask, or else a dotted hostmask.\<close>

definition prefix_from_ip_string :: "string \<Rightarrow> py_error + nat" where
  "prefix_from_ip_string ip_str =
     (case v4_ip_int_from_string ip_str of
        Inl e \<Rightarrow> Inl NetmaskValueError
      | Inr ip_int \<Rightarrow>
          (case prefix_from_ip_int ip_int of
             Inr prefixlen \<Rightarrow> Inr prefixlen
           | Inl e \<Rightarrow>
               (case prefix_from_ip_int (ip_int XOR V4_ALL_ONES) of
                  Inr prefixlen \<Rightarrow> Inr prefixlen
                | Inl e' \<Rightarrow> Inl NetmaskValueError)))"

text \<open>The mask handed to \<open>_make_netmask\<close>: the text after the slash, or the integer
  \<open>_max_prefixlen\<close> when the string has no slash.\<close>

datatype mask_arg = MaskInt nat | MaskStr string

text \<open>\<open>_BaseV4._make_netmask\<close>: the netmask and the prefix length. The class's cache
  only remembers results.\<close>

definition v4_make_netmask :: "mask_arg \<Rightarrow> py_error + (int \<times> nat)" where
  "v4_make_netmask arg =
     (case arg of
        MaskInt prefixlen \<Rightarrow>
          if \<not> prefixlen \<le> 32 then Inl NetmaskValueError
          else Inr (ip_int_from_prefix V4_ALL_ONES prefixlen, prefixlen)
      | MaskStr s \<Rightarrow>
          (case prefix_from_prefix_string 32 s of
             Inr prefixlen \<Rightarrow> Inr (ip_int_from_prefix V4_ALL_ONES prefixlen, prefixlen)
           | Inl e \<Rightarrow>
               (case prefix_from_ip_string s of
                  Inl e' \<Rightarrow> Inl e'
                | Inr prefixlen \<Rightarrow> Inr (ip_int_from_prefix V4_ALL_ONES prefixlen, prefixlen))))"

definition split_optional_netmask :: "string \<Rightarrow> py_error + string list" where
  "split_optional_netmask address =
     (let addr = py_split CHR ''/'' address
      in if length addr > 2 then Inl AddressValueError else Inr addr)"

definition split_addr_prefix :: "nat \<Rightarrow> string \<Rightarrow> py_error + (string \<times> mask_arg)" where
  "split_addr_prefix max_prefixlen address =
     (case split_optional_netmask address of
        Inl e \<Rightarrow> Inl e
      | Inr parts \<Rightarrow>
          if length parts > 1 then Inr (parts ! 0, MaskStr (parts ! 1))
          else Inr (parts ! 0, MaskInt max_prefixlen))"

text \<open>\<open>IPv4Network(address, strict)\<close> on a string: the network address and the prefix
  length.\<close>

definition IPv4Network_init :: "string \<Rightarrow> bool \<Rightarrow> py_error + (int \<times> nat)" where
  "IPv4Network_init address strict =
     (case split_addr_prefix 32 address of
        Inl e \<Rightarrow> Inl e
      | Inr (addr, netmask_arg) \<Rightarrow>
          (case IPv4Address_init addr of
             Inl e \<Rightarrow> Inl e
           | Inr packed \<Rightarrow>
               (case v4_make_netmask netmask_arg of
                  Inl e \<Rightarrow> Inl e
                | Inr (netmask, prefixlen) \<Rightarrow>
                    if packed AND netmask \<noteq> packed
                    then (if strict then Inl ValueError else Inr (packed AND netmask, prefixlen))
                    else Inr (packed, prefixlen))))"

subsection \<open>The ipaddress module: IPv6\<close>

definition hex_digit :: "char \<Rightarrow> bool" where
  "hex_digit c = (c \<in> set ''0123456789ABCDEFabcdef'')"

definition hex_val :: "char \<Rightarrow> int" where
  "hex_val c =
     (let n = (of_char c :: int)
      in if n \<le> 57 then n - 48 else if n \<le> 70 then n - 55 else n - 87)"

definition hex_digit_char :: "nat \<Rightarrow> char" where
  "hex_digit_char d = (if d < 10 then char_of (48 + d) else char_of (87 + d))"

text \<open>\<open>'%x' % n\<close> for a natural number.\<close>

fun hex_str :: "nat \<Rightarrow> string" where
  "hex_str n =
     (if n < 16 then [hex_digit_char n] else hex_str (n div 16) @ [hex_digit_char (n mod 16)])"

declare hex_str.simps [simp del]

text \<open>\<open>_parse_hextet\<close>; \<open>int('', 16)\<close> raises \<open>ValueError\<close>.\<close>

definition parse_hextet :: "string \<Rightarrow> py_error + int" where
  "parse_hextet hextet_str =
     (if \<not> list_all hex_digit hextet_str then Inl ValueError
      else if length hextet_str > 4 then Inl ValueError
      else if hextet_str = [] then Inl ValueError
      else Inr (foldl (\<lambda>acc c. 16 * acc + hex_val c) 0 hextet_str))"

text \<open>The loop \<open>ip_int <<= 16; ip_int |= _parse_hextet(part)\<close> over some parts.\<close>

fun hextets_into :: "int \<Rightarrow> string list \<Rightarrow> py_error + int" where
  "hextets_into ip_int [] = Inr ip_int"
| "hextets_into ip_int (p # ps) =
     (case parse_hextet p of
        Inl e \<Rightarrow> Inl e
      | Inr h \<Rightarrow> hextets_into (push_bit 16 ip_int OR h) ps)"

text \<open>The search for the one \<open>::\<close>: the index of an empty part that is neither the first
  nor the last; a second one raises.\<close>

definition find_skip_index :: "string list \<Rightarrow> py_error + nat option" where
  "find_skip_index parts =
     (case filter (\<lambda>i. parts ! i = []) [1 ..< length parts - 1] of
        [] \<Rightarrow> Inr None
      | [i] \<Rightarrow> Inr (Some i)
      | _ \<Rightarrow> Inl AddressValueError)"

text \<open>The numbers \<open>(parts_hi, parts_lo, parts_skipped)\<close> that \<open>_ip_int_from_string\<close>
  computes from the parts and the skip index.\<close>

definition v6_part_counts :: "string list \<Rightarrow> nat option \<Rightarrow> py_error + (nat \<times> nat \<times> nat)" where
  "v6_part_counts parts skip_index =
     (case skip_index of
        Some k \<Rightarrow>
          (let parts_hi0 = k;
               parts_lo0 = length parts - k - 1
           in if hd parts = [] \<and> parts_hi0 - 1 \<noteq> 0 then Inl AddressValueError
              else let parts_hi = (if hd parts = [] then parts_hi0 - 1 else parts_hi0)
                   in if last parts = [] \<and> parts_lo0 - 1 \<noteq> 0 then Inl AddressValueError
                      else let parts_lo = (if last parts = [] then parts_lo0 - 1 else parts_lo0)
                           in let parts_skipped = 8 - int (parts_hi + parts_lo)
                              in if parts_skipped < 1 then Inl AddressValueError
                                 else Inr (parts_hi, parts_lo, nat parts_skipped))
      | None \<Rightarrow>
          if length parts \<noteq> 8 then Inl AddressValueError
          else if hd parts = [] then Inl AddressValueError
          else if last parts = [] then Inl AddressValueError
          else Inr (length parts, 0, 0))"

text \<open>\<open>_BaseV6._ip_int_from_string\<close>\<close>

definition v6_ip_int_from_string :: "string \<Rightarrow> py_error + int" where
  "v6_ip_int_from_string ip_str =
     (if ip_str = [] then Inl AddressValueError
      else
        let parts0 = py_split CHR '':'' ip_str
        in if length parts0 < 3 then Inl AddressValueError
           else
             (case (if CHR ''.'' \<in> set (last parts0)
                    then (case IPv4Address_init (last parts0) of
                            Inl e \<Rightarrow> Inl AddressValueError
                          | Inr ipv4_int \<Rightarrow>
                              Inr (butlast parts0 @
                                   [hex_str (nat (drop_bit 16 ipv4_int AND 65535)),
                                    hex_str (nat (ipv4_int AND 65535))]))
                    else Inr parts0) of
                Inl e \<Rightarrow> Inl e
              | Inr parts \<Rightarrow>
                  if length parts > 9 then Inl AddressValueError
                  else
                    (case find_skip_index parts of
                       Inl e \<Rightarrow> Inl e
                     | Inr skip_index \<Rightarrow>
                         (case v6_part_counts parts skip_index of
                            Inl e \<Rightarrow> Inl e
                          | Inr (parts_hi, parts_lo, parts_skipped) \<Rightarrow>
                              (case hextets_into 0 (take parts_hi parts) of
                                 Inl e \<Rightarrow> Inl AddressValueError
                               | Inr hi \<Rightarrow>
                                   (case hextets_into (push_bit (16 * parts_skipped) hi)
                                           (drop (length parts - parts_lo) parts) of
                                      Inl e \<Rightarrow> Inl AddressValueError
                                    | Inr ip_int \<Rightarrow> Inr ip_int))))))"

text \<open>\<open>_split_scope_id\<close>\<close>

definition split_scope_id :: "string \<Rightarrow> py_error + (string \<times> string option)" where
  "split_scope_id ip_str =
     (case py_partition CHR ''%'' ip_str of
        (addr, sep, scope_id) \<Rightarrow>
          if \<not> sep then Inr (addr, None)
          else if scope_id = [] \<or> CHR ''%'' \<in> set scope_id then Inl AddressValueError
          else Inr (addr, Some scope_id))"

text \<open>\<open>IPv6Address(addr_str)\<close> on a string: the integer and the scope id.\<close>

definition IPv6Address_init :: "string \<Rightarrow> py_error + (int \<times> string option)" where
  "IPv6Address_init addr_str =
     (if CHR ''/'' \<in> set addr_str then Inl AddressValueError
      else (case split_scope_id addr_str of
              Inl e \<Rightarrow> Inl e
            | Inr (addr, scope_id) \<Rightarrow>
                (case v6_ip_int_from_string addr of
                   Inl e \<Rightarrow> Inl e
                 | Inr ip \<Rightarrow> Inr (ip, scope_id))))"

text \<open>\<open>_BaseV6._make_netmask\<close>: a prefix length only.\<close>

definition v6_make_netmask :: "mask_arg \<Rightarrow> py_error + (int \<times> nat)" where
  "v6_make_netmask arg =
     (case arg of
        MaskInt prefixlen \<Rightarrow>
          if \<not> prefixlen \<le> 128 then Inl NetmaskValueError
          else Inr (ip_int_from_prefix V6_ALL_ONES prefixlen, prefixlen)
      | MaskStr s \<Rightarrow>
          (case prefix_from_prefix_string 128 s of
             Inl e \<Rightarrow> Inl e
           | Inr prefixlen \<Rightarrow> Inr (ip_int_from_prefix V6_ALL_ONES prefixlen, prefixlen)))"

text \<open>\<open>IPv6Network(address, strict)\<close> on a string: the network address, its scope id
  (lost when host bits are masked away) and the prefix length.\<close>

definition IPv6Network_init :: "string \<Rightarrow> bool \<Rightarrow> py_error + (int \<times> string option \<times> nat)" where
  "IPv6Network_init address strict =
     (case split_addr_prefix 128 address of
        Inl e \<Rightarrow> Inl e
      | Inr (addr, netmask_arg) \<Rightarrow>
          (case IPv6Address_init addr of
             Inl e \<Rightarrow> Inl e
           | Inr (packed, scope_id) \<Rightarrow>
               (case v6_make_netmask netmask_arg of
                  Inl e \<Rightarrow> Inl e
                | Inr (netmask, prefixlen) \<Rightarrow>
                    if packed AND netmask \<noteq> packed
                    then (if strict then Inl ValueError
                          else Inr (packed AND netmask, None, prefixlen))
                    else Inr (packed, scope_id, prefixlen))))"

subsection \<open>The ipaddress module: the two factory functions\<close>

datatype ip_addr = IPv4Address int | IPv6Address int "string option"

datatype ip_net = IPv4Network int nat | IPv6Network int "string option" nat

fun addr_version :: "ip_addr \<Rightarrow> nat" where
  "addr_version (IPv4Address ip) = 4"
| "addr_version (IPv6Address ip scope_id) = 6"



text \<open>\<open>ipaddress.ip_address(address)\<close>: IPv4 first, then IPv6, then \<open>ValueError\<close>.\<close>

definition ipaddress_ip_address :: "string \<Rightarrow> py_error + ip_addr" where
  "ipaddress_ip_address address =
     (case IPv4Address_init address of
        Inr ip \<Rightarrow> Inr (IPv4Address ip)
      | Inl e \<Rightarrow>
          if \<not> is_ip_error e then Inl e
          else (case IPv6Address_init address of
                  Inr (ip, scope_id) \<Rightarrow> Inr (IPv6Address ip scope_id)
                | Inl e' \<Rightarrow> if \<not> is_ip_error e' then Inl e' else Inl ValueError))"

text \<open>\<open>ipaddress.ip_network(address, strict)\<close>\<close>

definition ipaddress_ip_network :: "string \<Rightarrow> bool \<Rightarrow> py_error + ip_net" where
  "ipaddress_ip_network address strict =
     (case IPv4Network_init address strict of
        Inr (ip, prefixlen) \<Rightarrow> Inr (IPv4Network ip prefixlen)
      | Inl e \<Rightarrow>
          if \<not> is_ip_error e then Inl e
          else (case IPv6Network_init address strict of
                  Inr (ip, scope_id, prefixlen) \<Rightarrow> Inr (IPv6Network ip scope_id prefixlen)
                | Inl e' \<Rightarrow> if \<not> is_ip_error e' then Inl e' else Inl ValueError))"

text \<open>\<open>_BaseV6._compress_hextets\<close>: the loop's state is
  \<open>(best_doublecolon_start, best_doublecolon_len, doublecolon_start, doublecolon_len)\<close>.\<close>

fun compress_scan :: "int \<times> int \<times> int \<times> int \<Rightarrow> int \<Rightarrow> string list \<Rightarrow> int \<times> int \<times> int \<times> int" where
  "compress_scan st index [] = st"
| "compress_scan (best_start, best_len, cur_start, cur_len) index (hextet # rest) =
     (if hextet = ''0''
      then (let cur_len' = cur_len + 1;
                cur_start' = (if cur_start = -1 then index else cur_start)
            in if cur_len' > best_len
               then compress_scan (cur_start', cur_len', cur_start', cur_len') (index + 1) rest
               else compress_scan (best_start, best_len, cur_start', cur_len') (index + 1) rest)
      else compress_scan (best_start, best_len, -1, 0) (index + 1) rest)"

definition compress_hextets :: "string list \<Rightarrow> string list" where
  "compress_hextets hextets =
     (case compress_scan (-1, 0, -1, 0) 0 hextets of
        (best_start, best_len, cur_start, cur_len) \<Rightarrow>
          if best_len > 1
          then (let best_end = best_start + best_len;
                    hextets1 = (if best_end = int (length hextets) then hextets @ [[]] else hextets);
                    hextets2 = take (nat best_start) hextets1 @ [[]] @ drop (nat best_end) hextets1
                in if best_start = 0 then [] # hextets2 else hextets2)
          else hextets)"

text \<open>\<open>_BaseV6._string_from_ip_int\<close> for \<open>0 \<le> ip_int < 2 ^ 128\<close>\<close>

definition v6_string_from_ip_int :: "int \<Rightarrow> string" where
  "v6_string_from_ip_int ip_int =
     py_join '':''
       (compress_hextets
          (map (\<lambda>k. hex_str (nat (ip_int div 2 ^ (16 * (7 - k)) mod 2 ^ 16))) [0 ..< 8]))"

text \<open>\<open>str(address)\<close>\<close>

fun str_ip_addr :: "ip_addr \<Rightarrow> string" where
  "str_ip_addr (IPv4Address ip) = v4_string_from_ip_int ip"
| "str_ip_addr (IPv6Address ip scope_id) =
     (case scope_id of
        None \<Rightarrow> v6_string_from_ip_int ip
      | Some sc \<Rightarrow> if sc = [] then v6_string_from_ip_int ip
                   else v6_string_from_ip_int ip @ ''%'' @ sc)"

text \<open>\<open>str(network)\<close>: \<open>'%s/%d' % (network_address, prefixlen)\<close>\<close>

fun str_ip_net :: "ip_net \<Rightarrow> string" where
  "str_ip_net (IPv4Network ip prefixlen) =
     str_ip_addr (IPv4Address ip) @ ''/'' @ str_nat prefixlen"
| "str_ip_net (IPv6Network ip scope_id prefixlen) =
     str_ip_addr (IPv6Address ip scope_id) @ ''/'' @ str_nat prefixlen"

text \<open>\<open>s.lower()\<close> on code points below U+0100.\<close>

definition lower_char :: "char \<Rightarrow> char" where
  "lower_char c =
     (let n = (of_char c :: nat)
      in if (65 \<le> n \<and> n \<le> 90) \<or> (192 \<le> n \<and> n \<le> 222 \<and> n \<noteq> 215) then char_of (n + 32)
         else c)"

definition lower :: "string \<Rightarrow> string" where
  "lower s = map lower_char s"

section \<open>The environment of app.py\<close>

text \<open>
  What the program reads from outside itself is a parameter of the model: the platform
  name, the outcome of running a command (\<open>subprocess.run\<close>), the outcome of a reverse
  DNS lookup (\<open>socket.gethostbyaddr\<close>) and the clock. \<open>subprocess.run\<close> with
  \<open>check=False\<close> returns a completed process whatever its exit code, and raises
  \<open>FileNotFoundError\<close> when the program is missing and \<open>TimeoutExpired\<close> when the
  timeout passes. \<open>socket.gethostbyaddr\<close> raises \<open>herror\<close> or \<open>gaierror\<close> when the
  lookup fails, and it raises errors that are no \<open>OSError\<close> on some texts that
  \<open>ip_address\<close> accepts: \<open>UnicodeError\<close> on \<open>fe80::1%a..b\<close>, \<open>TypeError\<close> on a
  scope id with a NUL character.
\<close>

record completed_process =
  returncode :: int
  stdout :: "string option"
  stderr :: "string option"

record world =
  platform_system :: string
  subprocess_run :: "string list \<Rightarrow> py_error + completed_process"
  gethostbyaddr :: "string \<Rightarrow> py_error + string"

section \<open>The registry table\<close>

text \<open>
  One row of the table \<open>ip_registry\<close>; a nullable TEXT column is a \<open>string option\<close>.
  The table is the list of its rows in insertion order. The columns \<open>id\<close>, \<open>alias\<close> and
  \<open>notes\<close> are \<open>row_id\<close>, \<open>row_alias\<close> and \<open>row_notes\<close> here.
\<close>

record row =
  row_id :: nat
  ip_address :: string
  row_alias :: "string option"
  host_name :: "string option"
  host_type :: "string option"
  location :: "string option"
  row_notes :: "string option"
  hostname :: "string option"
  last_ping_at :: "string option"
  last_status :: "string option"
  last_output :: "string option"
  created_at :: string

type_synonym table = "row list"

text \<open>A result row as the program hands it on: a \<open>dict[str, str | None]\<close>.\<close>

type_synonym row_dict = "string \<rightharpoonup> string option"

text \<open>The ten columns that \<open>get_rows\<close> and \<open>get_ip_row\<close> select.\<close>

definition selected_columns :: "row \<Rightarrow> row_dict" where
  "selected_columns r =
     [''ip_address'' \<mapsto> Some (ip_address r),
      ''alias'' \<mapsto> row_alias r,
      ''host_name'' \<mapsto> host_name r,
      ''host_type'' \<mapsto> host_type r,
      ''location'' \<mapsto> location r,
      ''notes'' \<mapsto> row_notes r,
      ''hostname'' \<mapsto> hostname r,
      ''last_ping_at'' \<mapsto> last_ping_at r,
      ''last_status'' \<mapsto> last_status r,
      ''last_output'' \<mapsto> last_output r]"

text \<open>\<open>id INTEGER PRIMARY KEY AUTOINCREMENT\<close>: one more than the largest id in use (no
  row is ever deleted).\<close>

definition next_id :: "table \<Rightarrow> nat" where
  "next_id db = Suc (fold max (map row_id db) 0)"

text \<open>\<open>INSERT INTO ip_registry (ip_address, alias, created_at) VALUES (?, ?, ?)\<close>: the
  UNIQUE constraint on \<open>ip_address\<close> raises \<open>IntegrityError\<close>; the other columns are
  NULL.\<close>

definition sql_insert :: "table \<Rightarrow> string \<Rightarrow> string option \<Rightarrow> string \<Rightarrow> py_error + table" where
  "sql_insert db ip al created =
     (if list_ex (\<lambda>r. ip_address r = ip) db then Inl IntegrityError
      else Inr (db @ [\<lparr>row_id = next_id db, ip_address = ip, row_alias = al, host_name = None,
                       host_type = None, location = None, row_notes = None, hostname = None,
                       last_ping_at = None, last_status = None, last_output = None,
                       created_at = created\<rparr>]))"

text \<open>\<open>UPDATE ip_registry SET alias = ?, host_name = ?, host_type = ?, location = ?,
  notes = ? WHERE ip_address = ?\<close>\<close>

definition sql_update_details ::
  "table \<Rightarrow> string option \<Rightarrow> string option \<Rightarrow> string option \<Rightarrow> string option \<Rightarrow> string option
     \<Rightarrow> string \<Rightarrow> table" where
  "sql_update_details db al hn ht loc nt ip =
     map (\<lambda>r. if ip_address r = ip
              then r\<lparr>row_alias := al, host_name := hn, host_type := ht, location := loc, row_notes := nt\<rparr>
              else r) db"

text \<open>\<open>UPDATE ip_registry SET hostname = ?, last_ping_at = ?, last_status = ?,
  last_output = ? WHERE id = ?\<close>\<close>

definition sql_update_ping ::
  "table \<Rightarrow> string option \<Rightarrow> string \<Rightarrow> string \<Rightarrow> string \<Rightarrow> nat \<Rightarrow> table" where
  "sql_update_ping db hn at st out rid =
     map (\<lambda>r. if row_id r = rid
              then r\<lparr>hostname := hn, last_ping_at := Some at, last_status := Some st,
                     last_output := Some out\<rparr>
              else r) db"

text \<open>\<open>SELECT ... WHERE ip_address = ?\<close> with \<open>fetchone()\<close>\<close>

definition sql_select_by_ip :: "table \<Rightarrow> string \<Rightarrow> row option" where
  "sql_select_by_ip db ip = find (\<lambda>r. ip_address r = ip) db"

text \<open>\<open>SELECT ... ORDER BY created_at DESC\<close>: TEXT compares byte by byte, which is the
  lexicographic order of strings. SQL leaves the order of rows with equal keys open;
  SQLite sorts the table scan stably, so among equal keys the earlier insertion comes
  first.\<close>

definition sql_select_order_by_created_at_desc :: "table \<Rightarrow> row list" where
  "sql_select_order_by_created_at_desc db = rev (sort_key created_at (rev db))"

text \<open>\<open>SELECT id, ip_address FROM ip_registry\<close>, the snapshot of a probe cycle. SQL
  leaves the order open; SQLite answers this query from the index of the UNIQUE
  constraint on \<open>ip_address\<close>, so the rows come in the byte order of \<open>ip_address\<close>.\<close>

definition sql_select_id_ip :: "table \<Rightarrow> (nat \<times> string) list" where
  "sql_select_id_ip db = map (\<lambda>r. (row_id r, ip_address r)) (sort_key ip_address db)"

section \<open>The functions of app.py\<close>

definition HOST_TYPE_OPTIONS :: "string list" where
  "HOST_TYPE_OPTIONS = [''NOTEBOOK'', ''DESKTOP'', ''SERVER'', ''IMPRESORA'', ''ROUTER'', ''OTRO'']"

text \<open>The messages; a with acute accent is U+00E1, o with acute accent is U+00F3.\<close>

definition msg_ip_invalid :: string where
  "msg_ip_invalid = ''La IP no es v'' @ [CHR 0xE1] @ ''lida''"

definition msg_ip_duplicate :: string where
  "msg_ip_duplicate = ''La IP ya estaba registrada''"

definition msg_ip_registered :: string where
  "msg_ip_registered = ''IP registrada correctamente''"

definition msg_host_type_invalid :: string where
  "msg_host_type_invalid = ''Tipo de host inv'' @ [CHR 0xE1] @ ''lido''"

definition msg_ip_missing :: string where
  "msg_ip_missing = ''No existe la IP indicada''"

definition msg_host_updated :: string where
  "msg_host_updated = ''Host actualizado''"

text \<open>\<open>is_valid_ip\<close>: \<open>ip_address\<close> raises nothing but \<open>ValueError\<close>
  (lemma \<open>ipaddress_ip_address_raises\<close>), which the \<open>except\<close> clause turns into False.\<close>

definition is_valid_ip :: "string \<Rightarrow> bool" where
  "is_valid_ip ip_value =
     (case ipaddress_ip_address (strip ip_value) of
        Inl e \<Rightarrow> False
      | Inr a \<Rightarrow> True)"

text \<open>\<open>x.strip() or None\<close>\<close>

definition strip_or_None :: "string \<Rightarrow> string option" where
  "strip_or_None x = (if strip x = [] then None else Some (strip x))"

text \<open>\<open>register_ip(ip_address, alias)\<close>, with the reading of the clock \<open>_now_iso()\<close> as
  the first argument and the table before and after.\<close>

definition register_ip :: "string \<Rightarrow> string \<Rightarrow> string option \<Rightarrow> table \<Rightarrow> (bool \<times> string) \<times> table" where
  "register_ip now_iso ip al db =
     (let clean_ip = strip ip
      in if \<not> is_valid_ip clean_ip then ((False, msg_ip_invalid), db)
         else (case sql_insert db clean_ip
                      (case al of
                         None \<Rightarrow> None
                       | Some a \<Rightarrow> if a \<noteq> [] then Some (strip a) else None)
                      now_iso of
                 Inl e \<Rightarrow> ((False, msg_ip_duplicate), db)
               | Inr db' \<Rightarrow> ((True, msg_ip_registered), db')))"

text \<open>\<open>update_host_details(ip_address, host_name, host_type, location, notes, alias)\<close>\<close>

definition update_host_details ::
  "string \<Rightarrow> string \<Rightarrow> string \<Rightarrow> string \<Rightarrow> string \<Rightarrow> string \<Rightarrow> table \<Rightarrow> (bool \<times> string) \<times> table" where
  "update_host_details ip hn ht loc nt al db =
     (if ht \<noteq> [] \<and> ht \<notin> set HOST_TYPE_OPTIONS then ((False, msg_host_type_invalid), db)
      else (case sql_select_by_ip db ip of
              None \<Rightarrow> ((False, msg_ip_missing), db)
            | Some r \<Rightarrow>
                ((True, msg_host_updated),
                 sql_update_details db (strip_or_None al) (strip_or_None hn) (strip_or_None ht)
                   (strip_or_None loc) (strip_or_None nt) ip)))"

text \<open>\<open>resolve_hostname\<close>: an \<open>OSError\<close> of \<open>gethostbyaddr\<close> is caught and gives
  None; any other exception leaves \<open>resolve_hostname\<close>.\<close>

definition resolve_hostname :: "world \<Rightarrow> string \<Rightarrow> py_error + string option" where
  "resolve_hostname w ip =
     (case gethostbyaddr w ip of
        Inr name \<Rightarrow> Inr (Some name)
      | Inl e \<Rightarrow> if is_OSError e then Inr None else Inl e)"

definition or_empty :: "string option \<Rightarrow> string" where
  "or_empty x = (case x of None \<Rightarrow> [] | Some s \<Rightarrow> s)"

definition msg_ping_failed :: "int \<Rightarrow> string" where
  "msg_ping_failed code = ''Ping fallido con c'' @ [CHR 0xF3] @ ''digo '' @ py_str code"

text \<open>\<open>run_ping\<close>: there is no \<open>try\<close> around \<open>subprocess.run\<close>, so what it raises
  leaves \<open>run_ping\<close>.\<close>

definition run_ping :: "world \<Rightarrow> string \<Rightarrow> py_error + (string \<times> string)" where
  "run_ping w ip =
     (let system = lower (platform_system w);
          cmd = (if system = ''windows'' then [''ping'', ''-n'', ''1'', ''-a'', ip]
                 else [''ping'', ''-c'', ''1'', ip])
      in case subprocess_run w cmd of
           Inl e \<Rightarrow> Inl e
         | Inr proc \<Rightarrow>
             (let output = or_empty (stdout proc) @ or_empty (stderr proc)
              in if returncode proc = 0 then Inr (''OK'', strip output)
                 else Inr (''ERROR'',
                           if strip output \<noteq> [] then strip output
                           else msg_ping_failed (returncode proc))))"

text \<open>
  What a probe cycle does to the store, in order: taking and releasing the lock
  \<open>_db_lock\<close> (the two ends of a \<open>with _db_lock\<close> block), the snapshot query, and the
  \<open>UPDATE\<close> statement with the id and the four values it writes.
\<close>

datatype store_event =
    LockAcquire
  | LockRelease
  | SqlSelectSnapshot
  | SqlUpdatePing nat "string option" string string string

text \<open>
  The loop of \<open>ping_all_registered_ips\<close> over the snapshot \<open>(id, ip_address)\<close>: the
  exception that ended it, if any, the table after it and the store events of the loop.
  For each row the hostname is resolved and the address pinged outside the lock, then the
  row is updated inside a \<open>with _db_lock\<close> block. The clock is read once per row:
  \<open>clock k\<close> is the reading at the \<open>k\<close>-th row of the snapshot. An exception ends the
  loop; the table keeps the updates made before it.
\<close>

fun ping_rows ::
  "world \<Rightarrow> (nat \<Rightarrow> string) \<Rightarrow> nat \<Rightarrow> (nat \<times> string) list \<Rightarrow> table
     \<Rightarrow> py_error option \<times> table \<times> store_event list" where
  "ping_rows w clock k [] db = (None, db, [])"
| "ping_rows w clock k ((rid, ip) # rows) db =
     (case resolve_hostname w ip of
        Inl e \<Rightarrow> (Some e, db, [])
      | Inr hn \<Rightarrow>
          (case run_ping w ip of
             Inl e \<Rightarrow> (Some e, db, [])
           | Inr (status, output) \<Rightarrow>
               (case ping_rows w clock (Suc k) rows
                       (sql_update_ping db hn (clock k) status output rid) of
                  (err, db', evs) \<Rightarrow>
                    (err, db',
                     [LockAcquire, SqlUpdatePing rid hn (clock k) status output, LockRelease]
                       @ evs))))"

text \<open>\<open>ping_all_registered_ips\<close> with its store events: the snapshot is taken inside a
  \<open>with _db_lock\<close> block, then the loop runs.\<close>

definition ping_all_registered_ips_traced ::
  "world \<Rightarrow> (nat \<Rightarrow> string) \<Rightarrow> table \<Rightarrow> py_error option \<times> table \<times> store_event list" where
  "ping_all_registered_ips_traced w clock db =
     (case ping_rows w clock 0 (sql_select_id_ip db) db of
        (err, db', evs) \<Rightarrow> (err, db', [LockAcquire, SqlSelectSnapshot, LockRelease] @ evs))"

text \<open>\<open>ping_all_registered_ips\<close>: the exception that ended it, if any, and the table
  after it.\<close>

definition ping_all_registered_ips :: "world \<Rightarrow> (nat \<Rightarrow> string) \<Rightarrow> table \<Rightarrow> py_error option \<times> table" where
  "ping_all_registered_ips w clock db =
     (case ping_all_registered_ips_traced w clock db of (err, db', evs) \<Rightarrow> (err, db'))"

definition infer_segment_24 :: "string \<Rightarrow> py_error + string" where
  "infer_segment_24 ip =
     (case ipaddress_ip_address ip of
        Inl e \<Rightarrow> Inl e
      | Inr parsed_ip \<Rightarrow>
          if addr_version parsed_ip \<noteq> 4 then Inr ''IPv6''
          else (case ipaddress_ip_network (ip @ ''/24'') False of
                  Inl e \<Rightarrow> Inl e
                | Inr network \<Rightarrow> Inr (str_ip_net network)))"



text \<open>\<open>xs[i]\<close>, which raises \<open>IndexError\<close> out of range.\<close>

definition py_nth :: "'a list \<Rightarrow> nat \<Rightarrow> py_error + 'a" where
  "py_nth xs i = (if i < length xs then Inr (xs ! i) else Inl IndexError)"

text \<open>The filter of \<open>get_rows\<close> on one row: whether the row is kept.\<close>

definition row_passes :: "string option \<Rightarrow> row \<Rightarrow> string \<Rightarrow> py_error + bool" where
  "row_passes segment_filter r segment =
     (case segment_filter of
        None \<Rightarrow> Inr True
      | Some f \<Rightarrow>
          if f = [] then Inr True
          else if startswith f ''THIRD_OCTET:''
          then (if segment = ''IPv6'' then Inr False
                else (case py_nth (py_split CHR ''.'' (ip_address r)) 2 of
                        Inl e \<Rightarrow> Inl e
                      | Inr o3 \<Rightarrow>
                          (case py_int o3 of
                             Inl e \<Rightarrow> Inl e
                           | Inr third_octet \<Rightarrow>
                               (case py_int (py_split1 CHR '':'' f ! 1) of
                                  Inl e \<Rightarrow> Inl e
                                | Inr requested \<Rightarrow> Inr (third_octet = requested)))))
          else Inr (segment = f))"

text \<open>The loop of \<open>get_rows\<close> over the fetched rows.\<close>

fun render_rows :: "string option \<Rightarrow> row list \<Rightarrow> py_error + row_dict list" where
  "render_rows segment_filter [] = Inr []"
| "render_rows segment_filter (r # rows) =
     (case infer_segment_24 (ip_address r) of
        Inl e \<Rightarrow> Inl e
      | Inr segment \<Rightarrow>
          (let current = (selected_columns r)(''segment'' \<mapsto> Some segment)
           in case row_passes segment_filter r segment of
                Inl e \<Rightarrow> Inl e
              | Inr keep \<Rightarrow>
                  (case render_rows segment_filter rows of
                     Inl e \<Rightarrow> Inl e
                   | Inr rendered \<Rightarrow> Inr (if keep then current # rendered else rendered))))"

definition get_rows :: "string option \<Rightarrow> table \<Rightarrow> py_error + row_dict list" where
  "get_rows segment_filter db =
     render_rows segment_filter (sql_select_order_by_created_at_desc db)"

definition get_ip_row :: "string \<Rightarrow> table \<Rightarrow> row_dict option" where
  "get_ip_row ip db = map_option selected_columns (sql_select_by_ip db ip)"

section \<open>Concrete tables and environments for the closed theorems\<close>

text \<open>A freshly inserted row: every nullable column NULL.\<close>

definition fresh_row :: "nat \<Rightarrow> string \<Rightarrow> string \<Rightarrow> row" where
  "fresh_row n ip created =
     \<lparr>row_id = n, ip_address = ip, row_alias = None, host_name = None, host_type = None,
      location = None, row_notes = None, hostname = None, last_ping_at = None,
      last_status = None, last_output = None, created_at = created\<rparr>"

text \<open>The enumeration of host types as the specification words it.\<close>

definition spec_host_type_enumeration :: "string list" where
  "spec_host_type_enumeration =
     [''NOTEBOOK'', ''DESKTOP'', ''SERVER'', ''PRINTER'', ''ROUTER'', ''OTHER'']"

text \<open>An environment without a \<open>ping\<close> program, and one where every ping times out.\<close>

definition world_no_ping :: world where
  "world_no_ping =
     \<lparr>platform_system = ''Linux'',
      subprocess_run = (\<lambda>cmd. Inl FileNotFoundError),
      gethostbyaddr = (\<lambda>ip. Inl herror)\<rparr>"

definition world_ping_timeout :: world where
  "world_ping_timeout =
     \<lparr>platform_system = ''Windows'',
      subprocess_run = (\<lambda>cmd. Inl TimeoutExpired),
      gethostbyaddr = (\<lambda>ip. Inr ''host.example'')\<rparr>"

text \<open>An environment where the ping of 10.0.0.1 times out and every other ping answers.\<close>

definition world_first_fails :: world where
  "world_first_fails =
     \<lparr>platform_system = ''Linux'',
      subprocess_run =
        (\<lambda>cmd. if last cmd = ''10.0.0.1'' then Inl TimeoutExpired
               else Inr \<lparr>returncode = 0, stdout = Some ''1 received'', stderr = Some []\<rparr>),
      gethostbyaddr = (\<lambda>ip. Inl herror)\<rparr>"

text \<open>An environment where 10.0.0.1 answers the ping and every other address does not
  (exit code 1, nothing printed).\<close>

definition world_pings :: world where
  "world_pings =
     \<lparr>platform_system = ''Linux'',
      subprocess_run =
        (\<lambda>cmd. if last cmd = ''10.0.0.1''
               then Inr \<lparr>returncode = 0, stdout = Some ''1 received'', stderr = Some []\<rparr>
               else Inr \<lparr>returncode = 1, stdout = Some [], stderr = Some []\<rparr>),
      gethostbyaddr = (\<lambda>ip. if ip = ''10.0.0.1'' then Inr ''gw.example'' else Inl gaierror)\<rparr>"

definition two_rows :: table where
  "two_rows = [fresh_row 1 ''10.0.0.1'' ''2024-01-01'', fresh_row 2 ''10.0.0.2'' ''2024-01-02'']"

text \<open>A table whose order of insertion is not the order of its addresses.\<close>

definition unordered_rows :: table where
  "unordered_rows =
     [fresh_row 1 ''10.0.0.9'' ''2024-01-01'', fresh_row 2 ''10.0.0.1'' ''2024-01-02'']"

definition two_clock :: "nat \<Rightarrow> string" where
  "two_clock k = (if k = 0 then ''2024-02-02T00:00:00'' else ''2024-02-02T00:00:01'')"

section \<open>What a probe cycle writes\<close>

text \<open>A call returns when it does not raise.\<close>

definition returns :: "py_error + 'a \<Rightarrow> bool" where
  "returns x = (case x of Inl e \<Rightarrow> False | Inr y \<Rightarrow> True)"

text \<open>The one \<open>UPDATE\<close> of the cycle on a row: the four fields together.\<close>

definition set_probe :: "row \<Rightarrow> string option \<Rightarrow> string \<Rightarrow> string \<Rightarrow> string \<Rightarrow> row" where
  "set_probe r hn at st out =
     r\<lparr>hostname := hn, last_ping_at := Some at, last_status := Some st, last_output := Some out\<rparr>"

text \<open>
  \<open>probe_written w clock snap evs r r'\<close>: the row \<open>r'\<close> is the row \<open>r\<close> with its four probe
  fields set by one iteration \<open>j\<close> of the cycle over the snapshot \<open>snap\<close>, an iteration
  whose id is the row's: the hostname resolved for that address, the clock read in that
  iteration, and the status and output of that address's ping; and the store events
  \<open>evs\<close> have the \<open>UPDATE\<close> statement that writes these four values to the row's id.
\<close>

definition probe_written ::
  "world \<Rightarrow> (nat \<Rightarrow> string) \<Rightarrow> (nat \<times> string) list \<Rightarrow> store_event list \<Rightarrow> row \<Rightarrow> row \<Rightarrow> bool" where
  "probe_written w clock snap evs r r' =
     list_ex (\<lambda>j. fst (snap ! j) = row_id r \<and>
                  (case resolve_hostname w (snd (snap ! j)) of
                     Inl e \<Rightarrow> False
                   | Inr hn \<Rightarrow>
                       (case run_ping w (snd (snap ! j)) of
                          Inl e \<Rightarrow> False
                        | Inr (st, out) \<Rightarrow>
                            r' = set_probe r hn (clock j) st out \<and>
                            SqlUpdatePing (row_id r) hn (clock j) st out \<in> set evs)))
             [0 ..< length snap]"

text \<open>
  The discipline of the lock \<open>_db_lock\<close>, a \<open>threading.Lock\<close>: it is taken only when it is
  free and released only when it is held, every statement on the store runs while it is
  held, and it is free at the end. \<open>lock_discipline held evs\<close> reads the events \<open>evs\<close>
  from a state where the lock is held or not.
\<close>

fun lock_discipline :: "bool \<Rightarrow> store_event list \<Rightarrow> bool" where
  "lock_discipline held [] = (\<not> held)"
| "lock_discipline held (LockAcquire # evs) = (\<not> held \<and> lock_discipline True evs)"
| "lock_discipline held (LockRelease # evs) = (held \<and> lock_discipline False evs)"
| "lock_discipline held (SqlSelectSnapshot # evs) = (held \<and> lock_discipline held evs)"
| "lock_discipline held (SqlUpdatePing rid hn at st out # evs) =
     (held \<and> lock_discipline held evs)"

text \<open>The table after the statements of a list of store events.\<close>

fun apply_events :: "store_event list \<Rightarrow> table \<Rightarrow> table" where
  "apply_events [] db = db"
| "apply_events (SqlUpdatePing rid hn at st out # evs) db =
     apply_events evs (sql_update_ping db hn at st out rid)"
| "apply_events (ev # evs) db = apply_events evs db"

section \<open>What a listing shows\<close>

text \<open>A table whose stored addresses all parse, which is what \<open>register_ip\<close> keeps.\<close>

definition stored_valid :: "table \<Rightarrow> bool" where
  "stored_valid db = list_all (\<lambda>r. returns (ipaddress_ip_address (ip_address r))) db"

text \<open>The computed segment of a row whose address parses.\<close>

definition segment_of :: "row \<Rightarrow> string" where
  "segment_of r = (case infer_segment_24 (ip_address r) of Inl e \<Rightarrow> [] | Inr segment \<Rightarrow> segment)"

text \<open>The third octet of an address: of an IPv4 address only.\<close>

definition third_octet_of :: "string \<Rightarrow> int option" where
  "third_octet_of ip =
     (case ipaddress_ip_address ip of
        Inl e \<Rightarrow> None
      | Inr (IPv4Address n) \<Rightarrow> Some (n div 2 ^ 8 mod 256)
      | Inr (IPv6Address n scope_id) \<Rightarrow> None)"

text \<open>The dictionary a listing shows for a row, key by key: the ten columns with the
  values the row has, and the segment computed from its address.\<close>

definition rendered :: "row \<Rightarrow> row_dict" where
  "rendered r =
     [''ip_address'' \<mapsto> Some (ip_address r),
      ''alias'' \<mapsto> row_alias r,
      ''host_name'' \<mapsto> host_name r,
      ''host_type'' \<mapsto> host_type r,
      ''location'' \<mapsto> location r,
      ''notes'' \<mapsto> row_notes r,
      ''hostname'' \<mapsto> hostname r,
      ''last_ping_at'' \<mapsto> last_ping_at r,
      ''last_status'' \<mapsto> last_status r,
      ''last_output'' \<mapsto> last_output r,
      ''segment'' \<mapsto> Some (segment_of r)]"

text \<open>Three rows with different contents; the second and the third were created at the
  same instant.\<close>

definition three_rows :: table where
  "three_rows =
     [(fresh_row 1 ''192.168.56.10'' ''2024-01-01T10:00:00+00:00'')
        \<lparr>row_alias := Some ''gw'', last_status := Some ''OK''\<rparr>,
      fresh_row 2 ''192.168.59.20'' ''2024-01-02T10:00:00+00:00'',
      (fresh_row 3 ''fe80::1'' ''2024-01-02T10:00:00+00:00'')
        \<lparr>host_type := Some ''ROUTER''\<rparr>]"

text \<open>What the closed theorems read from a dictionary: five of its keys and one key
  that no listing has.\<close>

definition shown :: "row_dict \<Rightarrow> string option option list" where
  "shown d = [d ''ip_address'', d ''alias'', d ''host_type'', d ''last_status'', d ''segment'',
              d ''id'']"

section \<open>The shapes of a filter text\<close>




section \<open>Facts about the string primitives\<close>

lemma rstrip_lstrip_no_leading_space:
  "dropWhile P (rev (dropWhile P (rev (dropWhile P s)))) = rev (dropWhile P (rev (dropWhile P s)))"
proof (cases "dropWhile P s")
  case Nil
  show ?thesis unfolding Nil by simp
next
  case (Cons a t)
  then have na: "\<not> P a"
    using hd_dropWhile[of P s] by auto
  have "\<exists>u. dropWhile P (rev t @ [a]) = u @ [a]"
    using na by (auto simp: dropWhile_append)
  then obtain u where u: "dropWhile P (rev (a # t)) = u @ [a]"
    by auto
  show ?thesis
    unfolding Cons u using na by simp
qed

lemma strip_strip: "strip (strip s) = strip s"
  unfolding strip_def lstrip_def rstrip_def
  by (simp add: rstrip_lstrip_no_leading_space)

section \<open>update_host_details\<close>

lemma msg_host_type_invalid_neq: "msg_host_type_invalid \<noteq> msg_ip_missing"
  by (simp add: msg_host_type_invalid_def msg_ip_missing_def)

text \<open>
  C3 (amended). \<open>update_host_details\<close> fails with the unknown-host-type message if and
  only if the supplied host type is non-empty and not a member of
  \<open>HOST_TYPE_OPTIONS\<close>, which is NOTEBOOK, DESKTOP, SERVER, IMPRESORA, ROUTER, OTRO; in
  particular, on an existing address the host types IMPRESORA and OTRO succeed.
\<close>

theorem C3_unknown_host_type:
  "(fst (update_host_details ip hn ht loc nt al db) = (False, msg_host_type_invalid)
      \<longleftrightarrow> ht \<noteq> [] \<and> ht \<notin> set HOST_TYPE_OPTIONS)
   \<and> set HOST_TYPE_OPTIONS
       = {''NOTEBOOK'', ''DESKTOP'', ''SERVER'', ''IMPRESORA'', ''ROUTER'', ''OTRO''}
   \<and> (sql_select_by_ip db ip \<noteq> None \<and> (ht = ''IMPRESORA'' \<or> ht = ''OTRO'')
        \<longrightarrow> fst (update_host_details ip hn ht loc nt al db) = (True, msg_host_updated))"
proof -
  have iff: "fst (update_host_details ip hn ht loc nt al db) = (False, msg_host_type_invalid)
      \<longleftrightarrow> ht \<noteq> [] \<and> ht \<notin> set HOST_TYPE_OPTIONS"
    by (auto simp: update_host_details_def msg_host_type_invalid_neq
          msg_host_type_invalid_neq[symmetric] split: option.splits)
  have opts: "set HOST_TYPE_OPTIONS
       = {''NOTEBOOK'', ''DESKTOP'', ''SERVER'', ''IMPRESORA'', ''ROUTER'', ''OTRO''}"
    by (simp add: HOST_TYPE_OPTIONS_def)
  have ok: "fst (update_host_details ip hn ht loc nt al db) = (True, msg_host_updated)"
    if "sql_select_by_ip db ip \<noteq> None" "ht = ''IMPRESORA'' \<or> ht = ''OTRO''"
    using that by (auto simp: update_host_details_def HOST_TYPE_OPTIONS_def)
  show ?thesis
    using iff opts ok by blast
qed

theorem C3_unknown_host_type_witness:
  "fst (update_host_details ''10.0.0.1'' [] ''OTRO'' [] [] [] [fresh_row 1 ''10.0.0.1'' ''t''])
     = (True, msg_host_updated)
   \<and> fst (update_host_details ''10.0.0.1'' [] ''PC'' [] [] [] [fresh_row 1 ''10.0.0.1'' ''t''])
     = (False, msg_host_type_invalid)"
  using C3_unknown_host_type[of "''10.0.0.1''" "[]" "''OTRO''" "[]" "[]" "[]"
          "[fresh_row 1 ''10.0.0.1'' ''t'']"]
        C3_unknown_host_type[of "''10.0.0.1''" "[]" "''PC''" "[]" "[]" "[]"
          "[fresh_row 1 ''10.0.0.1'' ''t'']"]
  by (simp add: sql_select_by_ip_def fresh_row_def HOST_TYPE_OPTIONS_def)

text \<open>
  The claim as the specification states it fails: PRINTER is a member of the
  specification's enumeration, yet \<open>update_host_details\<close> on an existing address with
  host type PRINTER fails with the unknown-host-type message.
\<close>

theorem C3_counterexample:
  "''PRINTER'' \<in> set spec_host_type_enumeration
   \<and> sql_select_by_ip [fresh_row 1 ''10.0.0.1'' ''t''] ''10.0.0.1''
       = Some (fresh_row 1 ''10.0.0.1'' ''t'')
   \<and> update_host_details ''10.0.0.1'' [] ''PRINTER'' [] [] [] [fresh_row 1 ''10.0.0.1'' ''t'']
       = ((False, msg_host_type_invalid), [fresh_row 1 ''10.0.0.1'' ''t''])"
  by (simp add: spec_host_type_enumeration_def sql_select_by_ip_def fresh_row_def
        update_host_details_def HOST_TYPE_OPTIONS_def)

subsection \<open>Facts about the table\<close>

lemma find_map_update:
  "find (\<lambda>r. ip_address r = ip) db = Some r \<Longrightarrow> (\<And>x. ip_address (f x) = ip_address x) \<Longrightarrow>
   find (\<lambda>r. ip_address r = ip) (map (\<lambda>x. if ip_address x = ip then f x else x) db) = Some (f r)"
  by (induction db) (auto split: if_splits)

lemma select_after_update:
  assumes "sql_select_by_ip db ip = Some r"
  shows "sql_select_by_ip (sql_update_details db a h t l n ip) ip
         = Some (r\<lparr>row_alias := a, host_name := h, host_type := t, location := l, row_notes := n\<rparr>)"
  using find_map_update[where f="\<lambda>r. r\<lparr>row_alias := a, host_name := h, host_type := t,
            location := l, row_notes := n\<rparr>", OF assms[unfolded sql_select_by_ip_def]]
  by (simp add: sql_select_by_ip_def sql_update_details_def)

lemma select_ip_address: "sql_select_by_ip db ip = Some r \<Longrightarrow> ip_address r = ip"
  unfolding sql_select_by_ip_def by (induction db) (auto split: if_splits)

lemma update_succeeds:
  assumes "sql_select_by_ip db ip = Some r" "ht = [] \<or> ht \<in> set HOST_TYPE_OPTIONS"
  shows "update_host_details ip hn ht loc nt al db = ((True, msg_host_updated),
      sql_update_details db (strip_or_None al) (strip_or_None hn) (strip_or_None ht)
                   (strip_or_None loc) (strip_or_None nt) ip)"
  using assms by (auto simp: update_host_details_def)

lemma sql_update_details_frame:
  "map ip_address (sql_update_details db a h t l n ip) = map ip_address db"
  "length (sql_update_details db a h t l n ip) = length db"
  "i < length db \<Longrightarrow> ip_address (db ! i) \<noteq> ip \<Longrightarrow> sql_update_details db a h t l n ip ! i = db ! i"
  by (auto simp: sql_update_details_def)

text \<open>
  C7. On a registered address with a host type that passes the check,
  \<open>update_host_details\<close> succeeds; the row of that address afterwards is the row before
  with exactly the five metadata fields overwritten, each by its argument stripped of
  surrounding whitespace with the empty string stored as NULL; \<open>ip_address\<close> is not
  changed, in that row or in any other; rows of other addresses are untouched; and a
  lookup (\<open>get_ip_row\<close>) afterwards returns every updated field exactly, with the
  probe fields as they were.
\<close>

theorem C7_update_overwrites:
  assumes "sql_select_by_ip db ip = Some r"
    and "ht = [] \<or> ht \<in> set HOST_TYPE_OPTIONS"
  shows "\<exists>db' r' d.
       update_host_details ip hn ht loc nt al db = ((True, msg_host_updated), db')
     \<and> r' = r\<lparr>row_alias := strip_or_None al, host_name := strip_or_None hn,
              host_type := strip_or_None ht, location := strip_or_None loc,
              row_notes := strip_or_None nt\<rparr>
     \<and> sql_select_by_ip db' ip = Some r'
     \<and> ip_address r' = ip
     \<and> get_ip_row ip db' = Some d
     \<and> d ''ip_address'' = Some (Some ip)
     \<and> d ''alias'' = Some (strip_or_None al)
     \<and> d ''host_name'' = Some (strip_or_None hn)
     \<and> d ''host_type'' = Some (strip_or_None ht)
     \<and> d ''location'' = Some (strip_or_None loc)
     \<and> d ''notes'' = Some (strip_or_None nt)
     \<and> d ''hostname'' = Some (hostname r)
     \<and> d ''last_ping_at'' = Some (last_ping_at r)
     \<and> d ''last_status'' = Some (last_status r)
     \<and> d ''last_output'' = Some (last_output r)
     \<and> map ip_address db' = map ip_address db
     \<and> (\<forall>i<length db. ip_address (db ! i) \<noteq> ip \<longrightarrow> db' ! i = db ! i)"
proof -
  let ?db' = "sql_update_details db (strip_or_None al) (strip_or_None hn) (strip_or_None ht)
                   (strip_or_None loc) (strip_or_None nt) ip"
  let ?r' = "r\<lparr>row_alias := strip_or_None al, host_name := strip_or_None hn,
              host_type := strip_or_None ht, location := strip_or_None loc,
              row_notes := strip_or_None nt\<rparr>"
  have 1: "update_host_details ip hn ht loc nt al db = ((True, msg_host_updated), ?db')"
    by (rule update_succeeds[OF assms])
  have 2: "sql_select_by_ip ?db' ip = Some ?r'"
    by (rule select_after_update[OF assms(1)])
  have 3: "ip_address ?r' = ip"
    using select_ip_address[OF assms(1)] by simp
  have 4: "get_ip_row ip ?db' = Some (selected_columns ?r')"
    by (simp add: get_ip_row_def 2)
  have 5: "selected_columns ?r' ''ip_address'' = Some (Some ip)"
    "selected_columns ?r' ''alias'' = Some (strip_or_None al)"
    "selected_columns ?r' ''host_name'' = Some (strip_or_None hn)"
    "selected_columns ?r' ''host_type'' = Some (strip_or_None ht)"
    "selected_columns ?r' ''location'' = Some (strip_or_None loc)"
    "selected_columns ?r' ''notes'' = Some (strip_or_None nt)"
    "selected_columns ?r' ''hostname'' = Some (hostname r)"
    "selected_columns ?r' ''last_ping_at'' = Some (last_ping_at r)"
    "selected_columns ?r' ''last_status'' = Some (last_status r)"
    "selected_columns ?r' ''last_output'' = Some (last_output r)"
    using 3 by (simp_all add: selected_columns_def)
  have 6: "map ip_address ?db' = map ip_address db"
    "\<forall>i<length db. ip_address (db ! i) \<noteq> ip \<longrightarrow> ?db' ! i = db ! i"
    by (simp_all add: sql_update_details_frame)
  show ?thesis
    using 1 2 3 4 5 6 by blast
qed


lemma strip_or_None_examples:
  "strip_or_None '' srv '' = Some ''srv''"
  "strip_or_None ''  '' = None"
  "strip_or_None [] = None"
  "strip_or_None '' a '' = Some ''a''"
  "strip_or_None ''SERVER'' = Some ''SERVER''"
  by (simp_all add: strip_or_None_def strip_def lstrip_def rstrip_def py_isspace_def)

theorem C7_update_overwrites_witness:
  "fst (update_host_details ''10.0.0.1'' '' srv '' ''SERVER'' ''  '' [] '' a ''
          [fresh_row 1 ''10.0.0.1'' ''t'']) = (True, msg_host_updated)
   \<and> map_option (\<lambda>d. [d ''ip_address'', d ''alias'', d ''host_name'', d ''host_type'',
                        d ''location'', d ''notes''])
        (get_ip_row ''10.0.0.1''
           (snd (update_host_details ''10.0.0.1'' '' srv '' ''SERVER'' ''  '' [] '' a ''
                   [fresh_row 1 ''10.0.0.1'' ''t''])))
      = Some [Some (Some ''10.0.0.1''), Some (Some ''a''), Some (Some ''srv''),
              Some (Some ''SERVER''), Some None, Some None]"
proof -
  have a: "sql_select_by_ip [fresh_row 1 ''10.0.0.1'' ''t''] ''10.0.0.1''
             = Some (fresh_row 1 ''10.0.0.1'' ''t'')"
    by (simp add: sql_select_by_ip_def fresh_row_def)
  have b: "''SERVER'' = [] \<or> ''SERVER'' \<in> set HOST_TYPE_OPTIONS"
    by (simp add: HOST_TYPE_OPTIONS_def)
  from C7_update_overwrites[OF a b, of "'' srv ''" "''  ''" "[]" "'' a ''"]
  show ?thesis
    unfolding strip_or_None_examples by auto
qed

section \<open>register_ip\<close>

lemma is_valid_ip_strip: "is_valid_ip (strip ip) = is_valid_ip ip"
  by (simp add: is_valid_ip_def strip_strip)

lemma register_invalid:
  "\<not> is_valid_ip ip \<Longrightarrow> register_ip now ip al db = ((False, msg_ip_invalid), db)"
  by (simp add: register_ip_def is_valid_ip_strip)

lemma register_duplicate:
  "is_valid_ip ip \<Longrightarrow> list_ex (\<lambda>r. ip_address r = strip ip) db \<Longrightarrow>
   register_ip now ip al db = ((False, msg_ip_duplicate), db)"
  by (simp add: register_ip_def is_valid_ip_strip sql_insert_def)

lemma register_fresh:
  "is_valid_ip ip \<Longrightarrow> \<not> list_ex (\<lambda>r. ip_address r = strip ip) db \<Longrightarrow>
   register_ip now ip al db = ((True, msg_ip_registered),
      db @ [(fresh_row (next_id db) (strip ip) now)
              \<lparr>row_alias := (case al of None \<Rightarrow> None
                             | Some a \<Rightarrow> if a \<noteq> [] then Some (strip a) else None)\<rparr>])"
  by (simp add: register_ip_def is_valid_ip_strip sql_insert_def fresh_row_def)

lemma is_valid_ip_examples:
  "is_valid_ip ''127.0.0.1''"
  "is_valid_ip '' 10.0.0.1 ''"
  "\<not> is_valid_ip ''not-an-ip''"
  "strip ''127.0.0.1'' = ''127.0.0.1''"
  "strip '' 10.0.0.1 '' = ''10.0.0.1''"
  by code_simp+

text \<open>
  C4 (amended). \<open>register_ip\<close> fails with the invalid-address message when
  \<open>is_valid_ip\<close> rejects the address and leaves the table as it was; it fails with the
  duplicate message when a row for the stripped address exists, and leaves the table as it
  was; otherwise it appends exactly one row, whose \<open>created_at\<close> is the clock reading,
  whose alias is the supplied alias stripped (NULL when no alias or an empty one is
  supplied), and whose other optional fields are all NULL.
\<close>

theorem C4_register:
  "(\<not> is_valid_ip ip \<longrightarrow> register_ip now ip al db = ((False, msg_ip_invalid), db))
   \<and> (is_valid_ip ip \<and> list_ex (\<lambda>r. ip_address r = strip ip) db
        \<longrightarrow> register_ip now ip al db = ((False, msg_ip_duplicate), db))
   \<and> (is_valid_ip ip \<and> \<not> list_ex (\<lambda>r. ip_address r = strip ip) db
        \<longrightarrow> register_ip now ip al db =
            ((True, msg_ip_registered),
             db @ [(fresh_row (next_id db) (strip ip) now)
                     \<lparr>row_alias := (case al of None \<Rightarrow> None
                                    | Some a \<Rightarrow> if a \<noteq> [] then Some (strip a) else None)\<rparr>]))"
  using register_invalid register_duplicate register_fresh by blast

theorem C4_register_witness:
  "register_ip ''t1'' ''not-an-ip'' (Some ''x'') [] = ((False, msg_ip_invalid), [])
   \<and> register_ip ''t1'' '' 10.0.0.1 '' None [fresh_row 1 ''10.0.0.1'' ''t0'']
       = ((False, msg_ip_duplicate), [fresh_row 1 ''10.0.0.1'' ''t0''])
   \<and> register_ip ''t1'' ''127.0.0.1'' None [fresh_row 1 ''10.0.0.1'' ''t0'']
       = ((True, msg_ip_registered),
          [fresh_row 1 ''10.0.0.1'' ''t0'', fresh_row 2 ''127.0.0.1'' ''t1''])"
  using C4_register[of "''not-an-ip''" "''t1''" "Some ''x''" "[]"]
        C4_register[of "'' 10.0.0.1 ''" "''t1''" None "[fresh_row 1 ''10.0.0.1'' ''t0'']"]
        C4_register[of "''127.0.0.1''" "''t1''" None "[fresh_row 1 ''10.0.0.1'' ''t0'']"]
  by (simp add: is_valid_ip_examples next_id_def fresh_row_def)

text \<open>
  The claim as the specification states it fails: registering with the alias \<open>local\<close>
  inserts a row whose optional field alias is not NULL.
\<close>

theorem C4_counterexample:
  "row_alias (hd (snd (register_ip ''2024-01-01T00:00:00+00:00'' ''127.0.0.1'' (Some ''local'') [])))
     = Some ''local''
   \<and> register_ip ''2024-01-01T00:00:00+00:00'' ''127.0.0.1'' (Some ''local'') []
   = ((True, msg_ip_registered),
      [\<lparr>row_id = 1, ip_address = ''127.0.0.1'', row_alias = Some ''local'', host_name = None,
        host_type = None, location = None, row_notes = None, hostname = None,
        last_ping_at = None, last_status = None, last_output = None,
        created_at = ''2024-01-01T00:00:00+00:00''\<rparr>])"
  by code_simp

section \<open>Whitespace-only aliases\<close>

lemma strip_or_None_empty: "strip x = [] \<Longrightarrow> strip_or_None x = None"
  by (simp add: strip_or_None_def)

text \<open>
  C10. For every alias that is non-empty and consists of whitespace only: \<open>register_ip\<close>
  on a valid address that is not yet registered inserts a row whose alias is the empty
  string (it strips the alias because it is truthy and keeps the stripped result), whereas
  \<open>update_host_details\<close>, where it succeeds, stores NULL as the alias, and NULL in each
  of the other four fields whose argument strips to the empty string.
\<close>

theorem C10_whitespace_alias:
  assumes "al \<noteq> []" and "strip al = []"
  shows "(is_valid_ip ip \<and> \<not> list_ex (\<lambda>r. ip_address r = strip ip) db
            \<longrightarrow> snd (register_ip now ip (Some al) db)
                = db @ [(fresh_row (next_id db) (strip ip) now)\<lparr>row_alias := Some []\<rparr>])
       \<and> (sql_select_by_ip db ip = Some r \<and> (ht = [] \<or> ht \<in> set HOST_TYPE_OPTIONS)
            \<longrightarrow> (\<exists>r'. sql_select_by_ip (snd (update_host_details ip hn ht loc nt al db)) ip
                         = Some r'
                     \<and> row_alias r' = None
                     \<and> (strip hn = [] \<longrightarrow> host_name r' = None)
                     \<and> (strip ht = [] \<longrightarrow> host_type r' = None)
                     \<and> (strip loc = [] \<longrightarrow> location r' = None)
                     \<and> (strip nt = [] \<longrightarrow> row_notes r' = None)))"
proof -
  have reg: "snd (register_ip now ip (Some al) db)
                = db @ [(fresh_row (next_id db) (strip ip) now)\<lparr>row_alias := Some []\<rparr>]"
    if "is_valid_ip ip" "\<not> list_ex (\<lambda>r. ip_address r = strip ip) db"
    using register_fresh[OF that, of now "Some al"] assms by simp
  have upd: "\<exists>r'. sql_select_by_ip (snd (update_host_details ip hn ht loc nt al db)) ip = Some r'
                     \<and> row_alias r' = None
                     \<and> (strip hn = [] \<longrightarrow> host_name r' = None)
                     \<and> (strip ht = [] \<longrightarrow> host_type r' = None)
                     \<and> (strip loc = [] \<longrightarrow> location r' = None)
                     \<and> (strip nt = [] \<longrightarrow> row_notes r' = None)"
    if "sql_select_by_ip db ip = Some r" "ht = [] \<or> ht \<in> set HOST_TYPE_OPTIONS"
    using update_succeeds[OF that] select_after_update[OF that(1)] strip_or_None_empty[OF assms(2)]
    by (simp add: strip_or_None_empty)
  show ?thesis
    using reg upd by blast
qed

theorem C10_whitespace_alias_witness:
  "snd (register_ip ''t1'' ''127.0.0.1'' (Some ''  '') [])
     = [(fresh_row 1 ''127.0.0.1'' ''t1'')\<lparr>row_alias := Some []\<rparr>]
   \<and> map_option row_alias
        (sql_select_by_ip
           (snd (update_host_details ''10.0.0.1'' [] [] [] [] ''  '' [fresh_row 1 ''10.0.0.1'' ''t0'']))
           ''10.0.0.1'')
     = Some None"
proof -
  have a: "''  '' \<noteq> []" and b: "strip ''  '' = []"
    by (simp_all add: strip_def lstrip_def rstrip_def py_isspace_def)
  have c: "sql_select_by_ip [fresh_row 1 ''10.0.0.1'' ''t0''] ''10.0.0.1''
             = Some (fresh_row 1 ''10.0.0.1'' ''t0'')"
    by (simp add: sql_select_by_ip_def fresh_row_def)
  have reg: "snd (register_ip ''t1'' ''127.0.0.1'' (Some ''  '') [])
     = [(fresh_row 1 ''127.0.0.1'' ''t1'')\<lparr>row_alias := Some []\<rparr>]"
    using C10_whitespace_alias[OF a b, where ip="''127.0.0.1''" and db="[]" and now="''t1''"]
    by (simp add: is_valid_ip_examples next_id_def)
  have "\<exists>r'. sql_select_by_ip
           (snd (update_host_details ''10.0.0.1'' [] [] [] [] ''  '' [fresh_row 1 ''10.0.0.1'' ''t0'']))
           ''10.0.0.1'' = Some r' \<and> row_alias r' = None"
    using C10_whitespace_alias[OF a b, where ip="''10.0.0.1''"
            and db="[fresh_row 1 ''10.0.0.1'' ''t0'']" and r="fresh_row 1 ''10.0.0.1'' ''t0''"
            and ht="[]" and hn="[]" and loc="[]" and nt="[]"] c
    by blast
  then show ?thesis
    using reg by auto
qed

section \<open>The probe\<close>

text \<open>
  C1 (the code at its failing inputs). With no ping program on the host
  \<open>subprocess.run\<close> raises \<open>FileNotFoundError\<close>, and at the expiry of the timeout
  it raises \<open>TimeoutExpired\<close>; \<open>run_ping\<close> has no handler, so each exception leaves
  \<open>run_ping\<close> instead of being reported as status ERROR.
\<close>

theorem C1_run_ping_raises:
  "run_ping world_no_ping ''10.0.0.1'' = Inl FileNotFoundError
   \<and> run_ping world_ping_timeout ''10.0.0.1'' = Inl TimeoutExpired"
  by (simp add: run_ping_def world_no_ping_def world_ping_timeout_def)

lemma snapshot_two_rows: "sql_select_id_ip two_rows = [(1, ''10.0.0.1''), (2, ''10.0.0.2'')]"
  by code_simp

text \<open>
  C2 (the code at its failing input). With two registered addresses, when the ping of the
  first one times out, \<open>ping_all_registered_ips\<close> ends with that exception and the
  table is as before: neither address has a status persisted, the second one was never
  probed.
\<close>

theorem C2_cycle_aborts:
  "ping_all_registered_ips world_first_fails (\<lambda>k. ''2024-02-02'') two_rows
     = (Some TimeoutExpired, two_rows)
   \<and> map last_status two_rows = [None, None]"
  unfolding ping_all_registered_ips_def ping_all_registered_ips_traced_def snapshot_two_rows
  by (simp add: two_rows_def fresh_row_def run_ping_def resolve_hostname_def is_OSError_def
        world_first_fails_def lower_def lower_char_def)


section \<open>The probe cycle\<close>

lemma set_probe_simps:
  "row_id (set_probe r hn at st out) = row_id r"
  "last_status (set_probe r hn at st out) = Some st"
  "last_ping_at (set_probe r hn at st out) = Some at"
  "set_probe (set_probe r hn at st out) hn' at' st' out' = set_probe r hn' at' st' out'"
  by (simp_all add: set_probe_def)

lemma probe_written_iff:
  "probe_written w clock snap evs r r' \<longleftrightarrow>
     (\<exists>j<length snap. fst (snap ! j) = row_id r \<and>
        (\<exists>hn st out. resolve_hostname w (snd (snap ! j)) = Inr hn \<and>
           run_ping w (snd (snap ! j)) = Inr (st, out) \<and>
           r' = set_probe r hn (clock j) st out \<and>
           SqlUpdatePing (row_id r) hn (clock j) st out \<in> set evs))"
proof -
  have "(case resolve_hostname w ip of
           Inl e \<Rightarrow> False
         | Inr hn \<Rightarrow>
             (case run_ping w ip of
                Inl e \<Rightarrow> False
              | Inr (st, out) \<Rightarrow>
                  r' = set_probe r hn c st out \<and>
                  SqlUpdatePing (row_id r) hn c st out \<in> set evs))
        \<longleftrightarrow> (\<exists>hn st out. resolve_hostname w ip = Inr hn \<and> run_ping w ip = Inr (st, out) \<and>
               r' = set_probe r hn c st out \<and> SqlUpdatePing (row_id r) hn c st out \<in> set evs)"
    for ip c
    by (cases "resolve_hostname w ip"; cases "run_ping w ip") auto
  then show ?thesis
    unfolding probe_written_def list_ex_iff by auto
qed

lemma probe_written_mono:
  "probe_written w clock snap evs r r' \<Longrightarrow> probe_written w clock snap (evs @ more_evs) r r'"
  unfolding probe_written_iff by fastforce

lemma run_ping_status: "run_ping w ip = Inr (st, out) \<Longrightarrow> st = ''OK'' \<or> st = ''ERROR''"
  by (auto simp: run_ping_def Let_def split: sum.splits if_splits)

lemma sql_update_ping_nth:
  "i < length db \<Longrightarrow> sql_update_ping db hn at st out rid ! i =
     (if row_id (db ! i) = rid then set_probe (db ! i) hn at st out else db ! i)"
  by (simp add: sql_update_ping_def set_probe_def)

lemma length_sql_update_ping: "length (sql_update_ping db hn at st out rid) = length db"
  by (simp add: sql_update_ping_def)

lemma ping_rows_step:
  assumes "ping_rows w clock k ((rid, ip) # rest) cur = (None, fin, evs)"
  obtains hn st out evs' where
    "resolve_hostname w ip = Inr hn"
    "run_ping w ip = Inr (st, out)"
    "ping_rows w clock (Suc k) rest (sql_update_ping cur hn (clock k) st out rid)
       = (None, fin, evs')"
    "evs = [LockAcquire, SqlUpdatePing rid hn (clock k) st out, LockRelease] @ evs'"
  using assms by (auto split: sum.splits prod.splits)

lemma ping_rows_inv:
  assumes "ping_rows w clock k rows cur = (None, fin, evs)"
    and "rows = drop k snap"
    and "length cur = length db"
    and "\<forall>i<length db. \<exists>j<length snap. fst (snap ! j) = row_id (db ! i)"
    and "\<forall>i<length db.
           (cur ! i = db ! i \<and> (\<forall>j<k. j < length snap \<longrightarrow> fst (snap ! j) \<noteq> row_id (db ! i)))
           \<or> probe_written w clock snap pre (db ! i) (cur ! i)"
  shows "length fin = length db
         \<and> (\<forall>i<length db. probe_written w clock snap (pre @ evs) (db ! i) (fin ! i))"
  using assms(1,2,3,5)
proof (induction rows arbitrary: k cur pre evs)
  case Nil
  then have k: "length snap \<le> k"
    by simp
  from Nil have fin: "fin = cur" "evs = []"
    by simp_all
  have "probe_written w clock snap pre (db ! i) (cur ! i)" if i: "i < length db" for i
  proof -
    obtain j where "j < length snap" "fst (snap ! j) = row_id (db ! i)"
      using assms(4) i by auto
    moreover have "j < k"
      using calculation(1) k by simp
    ultimately show ?thesis
      using Nil.prems(4)[rule_format, OF i] by auto
  qed
  then show ?case
    using Nil.prems(3) fin by simp
next
  case (Cons p rest)
  obtain rid ip where p: "p = (rid, ip)"
    by (cases p)
  from Cons.prems(2) have klt: "k < length snap"
    by (metis drop_eq_Nil list.distinct(1) not_le_imp_less)
  have "drop k snap = snap ! k # drop (Suc k) snap"
    using klt by (rule Cons_nth_drop_Suc[symmetric])
  with Cons.prems(2) p have pk: "snap ! k = (rid, ip)" and rest: "rest = drop (Suc k) snap"
    by simp_all
  obtain hn st out evs' where
    rh: "resolve_hostname w ip = Inr hn"
    and rp: "run_ping w ip = Inr (st, out)"
    and step: "ping_rows w clock (Suc k) rest (sql_update_ping cur hn (clock k) st out rid)
                 = (None, fin, evs')"
    and evs: "evs = [LockAcquire, SqlUpdatePing rid hn (clock k) st out, LockRelease] @ evs'"
    using that by (rule ping_rows_step[OF Cons.prems(1)[unfolded p]])
  let ?cur' = "sql_update_ping cur hn (clock k) st out rid"
  let ?pre' = "pre @ [LockAcquire, SqlUpdatePing rid hn (clock k) st out, LockRelease]"
  have ids: "row_id (cur ! i) = row_id (db ! i)" if "i < length db" for i
    using Cons.prems(4) that by (auto simp: probe_written_iff set_probe_simps)
  have over: "set_probe (cur ! i) h a s ou = set_probe (db ! i) h a s ou"
    if "i < length db" for i h a s ou
    using Cons.prems(4) that by (auto simp: probe_written_iff set_probe_simps)
  have inv': "(?cur' ! i = db ! i
                \<and> (\<forall>j<Suc k. j < length snap \<longrightarrow> fst (snap ! j) \<noteq> row_id (db ! i)))
               \<or> probe_written w clock snap ?pre' (db ! i) (?cur' ! i)"
    if i: "i < length db" for i
  proof (cases "row_id (cur ! i) = rid")
    case True
    then have "?cur' ! i = set_probe (db ! i) hn (clock k) st out"
      using i Cons.prems(3) over[OF i] by (simp add: sql_update_ping_nth)
    moreover have "row_id (db ! i) = rid"
      using True ids[OF i] by simp
    ultimately have "probe_written w clock snap ?pre' (db ! i) (?cur' ! i)"
      unfolding probe_written_iff using klt pk rh rp by (intro exI[of _ k]) simp
    then show ?thesis ..
  next
    case False
    then have same: "?cur' ! i = cur ! i"
      using i Cons.prems(3) by (simp add: sql_update_ping_nth)
    from Cons.prems(4) i consider
      (a) "cur ! i = db ! i" "\<forall>j<k. j < length snap \<longrightarrow> fst (snap ! j) \<noteq> row_id (db ! i)"
      | (b) "probe_written w clock snap pre (db ! i) (cur ! i)"
      by blast
    then show ?thesis
    proof cases
      case a
      have "\<forall>j<Suc k. j < length snap \<longrightarrow> fst (snap ! j) \<noteq> row_id (db ! i)"
        using a(2) False pk ids[OF i] by (auto simp: less_Suc_eq)
      then show ?thesis
        using a(1) same by simp
    next
      case b
      then show ?thesis
        using same probe_written_mono by simp
    qed
  qed
  have "length fin = length db
         \<and> (\<forall>i<length db. probe_written w clock snap (?pre' @ evs') (db ! i) (fin ! i))"
    by (rule Cons.IH[OF step rest]) (use inv' Cons.prems(3) in \<open>auto simp: length_sql_update_ping\<close>)
  then show ?case
    using evs by simp
qed

lemma ping_rows_completes:
  "list_all (\<lambda>p. returns (resolve_hostname w (snd p)) \<and> returns (run_ping w (snd p))) rows
     \<Longrightarrow> fst (ping_rows w clock k rows cur) = None"
proof (induction rows arbitrary: k cur)
  case Nil
  show ?case
    by simp
next
  case (Cons p rest)
  obtain rid ip where p: "p = (rid, ip)"
    by (cases p)
  from Cons.prems p obtain hn st out where
    "resolve_hostname w ip = Inr hn" "run_ping w ip = Inr (st, out)"
    by (cases "resolve_hostname w ip"; cases "run_ping w ip") (auto simp: returns_def)
  moreover have "fst (ping_rows w clock (Suc k) rest (sql_update_ping cur hn (clock k) st out rid))
                 = None"
    by (rule Cons.IH) (use Cons.prems in simp)
  ultimately show ?case
    using p by (simp add: split_beta)
qed

lemma ping_rows_lock:
  "ping_rows w clock k rows cur = (err, fin, evs) \<Longrightarrow> lock_discipline False evs"
  by (induction rows arbitrary: k cur evs) (auto split: sum.splits prod.splits)

lemma ping_rows_replay:
  "ping_rows w clock k rows cur = (err, fin, evs) \<Longrightarrow> apply_events evs cur = fin"
  by (induction rows arbitrary: k cur evs) (auto split: sum.splits prod.splits)

lemma snapshot_covers:
  assumes "i < length db"
  shows "\<exists>j<length (sql_select_id_ip db). fst (sql_select_id_ip db ! j) = row_id (db ! i)"
proof -
  have "db ! i \<in> set (sort_key ip_address db)"
    using assms by simp
  then obtain j where "j < length (sort_key ip_address db)" "sort_key ip_address db ! j = db ! i"
    unfolding in_set_conv_nth by blast
  then show ?thesis
    unfolding sql_select_id_ip_def by (intro exI[of _ j]) simp
qed

text \<open>
  C9. A probe cycle returns normally when resolving and pinging every registered address
  returns; and after a cycle that returned normally (\<open>db'\<close> the table after it, \<open>evs\<close> its
  store events, the same table that \<open>ping_all_registered_ips\<close> gives): the table has the
  rows it had at the start; the events keep the discipline of the store lock, so the
  snapshot query and every \<open>UPDATE\<close> ran while the lock was held; the table is the old one
  after the \<open>UPDATE\<close> statements of the events; and each row is the row it was with the four
  fields hostname, last_ping_at, last_status and last_output written together by one
  \<open>UPDATE\<close> of the cycle (\<open>probe_written\<close>: one iteration with the row's id, at its place in
  the snapshot in address order, supplies all four values, and its \<open>UPDATE\<close> is among the
  events), its last_status is OK or ERROR and its last_ping_at is not NULL.
\<close>

theorem C9_probe_cycle:
  "(list_all (\<lambda>r. returns (resolve_hostname w (ip_address r))
                   \<and> returns (run_ping w (ip_address r))) db
      \<longrightarrow> fst (ping_all_registered_ips w clock db) = None)
   \<and> (ping_all_registered_ips_traced w clock db = (None, db', evs)
      \<longrightarrow> ping_all_registered_ips w clock db = (None, db')
          \<and> length db' = length db
          \<and> lock_discipline False evs
          \<and> apply_events evs db = db'
          \<and> (\<forall>i<length db.
                probe_written w clock (sql_select_id_ip db) evs (db ! i) (db' ! i)
                \<and> (last_status (db' ! i) = Some ''OK'' \<or> last_status (db' ! i) = Some ''ERROR'')
                \<and> last_ping_at (db' ! i) \<noteq> None))"
proof -
  have completes: "fst (ping_all_registered_ips w clock db) = None"
    if ok: "list_all (\<lambda>r. returns (resolve_hostname w (ip_address r))
                   \<and> returns (run_ping w (ip_address r))) db"
  proof -
    have "list_all (\<lambda>p. returns (resolve_hostname w (snd p)) \<and> returns (run_ping w (snd p)))
            (sql_select_id_ip db)"
      using ok by (simp add: sql_select_id_ip_def list_all_iff)
    from ping_rows_completes[OF this, of clock 0 db] show ?thesis
      by (simp add: ping_all_registered_ips_def ping_all_registered_ips_traced_def split_beta)
  qed
  have written: "ping_all_registered_ips w clock db = (None, db')
          \<and> length db' = length db
          \<and> lock_discipline False evs
          \<and> apply_events evs db = db'
          \<and> (\<forall>i<length db.
                probe_written w clock (sql_select_id_ip db) evs (db ! i) (db' ! i)
                \<and> (last_status (db' ! i) = Some ''OK'' \<or> last_status (db' ! i) = Some ''ERROR'')
                \<and> last_ping_at (db' ! i) \<noteq> None)"
    if run: "ping_all_registered_ips_traced w clock db = (None, db', evs)"
  proof -
    let ?head = "[LockAcquire, SqlSelectSnapshot, LockRelease]"
    from run obtain evs' where
      loop: "ping_rows w clock 0 (sql_select_id_ip db) db = (None, db', evs')"
      and evs: "evs = ?head @ evs'"
      by (auto simp: ping_all_registered_ips_traced_def split: prod.splits)
    have pair: "ping_all_registered_ips w clock db = (None, db')"
      using run by (simp add: ping_all_registered_ips_def)
    have inv: "length db' = length db
        \<and> (\<forall>i<length db.
              probe_written w clock (sql_select_id_ip db) (?head @ evs') (db ! i) (db' ! i))"
      by (rule ping_rows_inv[OF loop]) (use snapshot_covers in auto)
    have lock: "lock_discipline False evs"
      using ping_rows_lock[OF loop] evs by simp
    have replay: "apply_events evs db = db'"
      using ping_rows_replay[OF loop] evs by simp
    have "(last_status r' = Some ''OK'' \<or> last_status r' = Some ''ERROR'')
        \<and> last_ping_at r' \<noteq> None"
      if "probe_written w clock snap es r r'" for r r' snap es
      using that run_ping_status[of w] unfolding probe_written_iff
      by (fastforce simp: set_probe_simps)
    with inv pair lock replay evs show ?thesis
      by blast
  qed
  show ?thesis
    using completes written by blast
qed

lemma unordered_rows_cycle:
  "ping_all_registered_ips_traced world_pings two_clock unordered_rows
   = (None,
      [set_probe (fresh_row 1 ''10.0.0.9'' ''2024-01-01'') None
         ''2024-02-02T00:00:01'' ''ERROR'' (msg_ping_failed 1),
       set_probe (fresh_row 2 ''10.0.0.1'' ''2024-01-02'') (Some ''gw.example'')
         ''2024-02-02T00:00:00'' ''OK'' ''1 received''],
      [LockAcquire, SqlSelectSnapshot, LockRelease,
       LockAcquire,
       SqlUpdatePing 2 (Some ''gw.example'') ''2024-02-02T00:00:00'' ''OK'' ''1 received'',
       LockRelease,
       LockAcquire,
       SqlUpdatePing 1 None ''2024-02-02T00:00:01'' ''ERROR'' (msg_ping_failed 1),
       LockRelease])"
proof -
  have snap: "sql_select_id_ip unordered_rows = [(2, ''10.0.0.1''), (1, ''10.0.0.9'')]"
    by code_simp
  show ?thesis
    unfolding ping_all_registered_ips_traced_def snap
    by (simp add: unordered_rows_def fresh_row_def run_ping_def is_OSError_def
        world_pings_def lower_def lower_char_def sql_update_ping_def set_probe_def two_clock_def
        resolve_hostname_def or_empty_def strip_def lstrip_def rstrip_def py_isspace_def)
qed

theorem C9_probe_cycle_witness:
  "list_all (\<lambda>r. returns (resolve_hostname world_pings (ip_address r))
                   \<and> returns (run_ping world_pings (ip_address r))) unordered_rows
   \<and> fst (ping_all_registered_ips world_pings two_clock unordered_rows) = None
   \<and> sql_select_id_ip unordered_rows = [(2, ''10.0.0.1''), (1, ''10.0.0.9'')]
   \<and> map hostname (snd (ping_all_registered_ips world_pings two_clock unordered_rows))
       = [None, Some ''gw.example'']
   \<and> map last_ping_at (snd (ping_all_registered_ips world_pings two_clock unordered_rows))
       = [Some ''2024-02-02T00:00:01'', Some ''2024-02-02T00:00:00'']
   \<and> map last_status (snd (ping_all_registered_ips world_pings two_clock unordered_rows))
       = [Some ''ERROR'', Some ''OK'']
   \<and> lock_discipline False
        (snd (snd (ping_all_registered_ips_traced world_pings two_clock unordered_rows)))
   \<and> probe_written world_pings two_clock (sql_select_id_ip unordered_rows)
        (snd (snd (ping_all_registered_ips_traced world_pings two_clock unordered_rows)))
        (unordered_rows ! 0)
        (snd (ping_all_registered_ips world_pings two_clock unordered_rows) ! 0)
   \<and> probe_written world_pings two_clock (sql_select_id_ip unordered_rows)
        (snd (snd (ping_all_registered_ips_traced world_pings two_clock unordered_rows)))
        (unordered_rows ! 1)
        (snd (ping_all_registered_ips world_pings two_clock unordered_rows) ! 1)"
proof -
  obtain db' evs where
    ev: "ping_all_registered_ips_traced world_pings two_clock unordered_rows = (None, db', evs)"
    and db': "map hostname db' = [None, Some ''gw.example'']"
      "map last_ping_at db' = [Some ''2024-02-02T00:00:01'', Some ''2024-02-02T00:00:00'']"
      "map last_status db' = [Some ''ERROR'', Some ''OK'']"
    using unordered_rows_cycle by (simp add: set_probe_def fresh_row_def)
  have len: "length unordered_rows = 2"
    by (simp add: unordered_rows_def)
  have snap: "sql_select_id_ip unordered_rows = [(2, ''10.0.0.1''), (1, ''10.0.0.9'')]"
    by code_simp
  have ok: "list_all (\<lambda>r. returns (resolve_hostname world_pings (ip_address r))
                   \<and> returns (run_ping world_pings (ip_address r))) unordered_rows"
    by (simp add: unordered_rows_def fresh_row_def returns_def resolve_hostname_def
        is_OSError_def world_pings_def run_ping_def lower_def lower_char_def Let_def)
  from C9_probe_cycle[of world_pings unordered_rows two_clock db' evs] ev ok
  have "fst (ping_all_registered_ips world_pings two_clock unordered_rows) = None"
    and "ping_all_registered_ips world_pings two_clock unordered_rows = (None, db')"
    and "lock_discipline False evs"
    and "\<forall>i<length unordered_rows.
           probe_written world_pings two_clock (sql_select_id_ip unordered_rows) evs
             (unordered_rows ! i) (db' ! i)"
    by blast+
  then show ?thesis
    using ev db' len snap ok by simp
qed

section \<open>Facts about splitting\<close>

lemma py_split_ne [simp]: "py_split c s \<noteq> []"
  by (induction s) (auto split: list.splits)


lemma py_split_append: "c \<notin> set xs \<Longrightarrow> py_split c (xs @ c # ys) = xs # py_split c ys"
  by (induction xs) auto





section \<open>Facts about digits\<close>

lemma ascii_digit_not_special:
  "ascii_digit c \<Longrightarrow> \<not> py_isspace c \<and> c \<noteq> CHR ''.'' \<and> c \<noteq> CHR ''/'' \<and> c \<noteq> CHR '':'' \<and> c \<noteq> CHR ''I''"
  by (auto simp: ascii_digit_def py_isspace_def Let_def)

lemma ascii_digit_iff: "ascii_digit c \<longleftrightarrow> py_isdigit_char c \<and> (of_char c :: nat) < 128"
  by (auto simp: ascii_digit_def py_isdigit_char_def Let_def)

lemma isascii_isdigit_iff: "isascii s \<and> isdigit s \<longleftrightarrow> s \<noteq> [] \<and> list_all ascii_digit s"
  by (auto simp: isascii_def isdigit_def list_all_iff ascii_digit_iff)

lemma int_of_digits_snoc: "int_of_digits (xs @ [c]) = 10 * int_of_digits xs + digit_val c"
  by (simp add: int_of_digits_def)

lemma digit_val_nonneg: "ascii_digit c \<Longrightarrow> 0 \<le> digit_val c \<and> digit_val c \<le> 9"
  by (auto simp: ascii_digit_def digit_val_def Let_def)

lemma int_of_digits_nonneg: "list_all ascii_digit s \<Longrightarrow> 0 \<le> int_of_digits s"
proof (induction s rule: rev_induct)
  case Nil
  then show ?case by (simp add: int_of_digits_def)
next
  case (snoc c s)
  then show ?case using digit_val_nonneg[of c] by (simp add: int_of_digits_snoc)
qed

lemma digit_char_props: "d < 10 \<Longrightarrow> ascii_digit (digit_char d) \<and> digit_val (digit_char d) = int d"
  by (auto simp: ascii_digit_def digit_char_def digit_val_def Let_def)

lemma div_mod_int: "10 * int (n div 10) + int (n mod 10) = int n"
  by (simp add: zdiv_int zmod_int)

lemma str_nat_digits: "list_all ascii_digit (str_nat n) \<and> str_nat n \<noteq> [] \<and> int_of_digits (str_nat n) = int n"
proof (induction n rule: str_nat.induct)
  case (1 n)
  show ?case
  proof (cases "n < 10")
    case True
    then show ?thesis
      using digit_char_props[of n] by (subst (1 2 3) str_nat.simps) (simp add: int_of_digits_def)
  next
    case False
    then show ?thesis
      using 1 digit_char_props[of "n mod 10"] div_mod_int[of n]
      by (subst (1 2 3) str_nat.simps) (simp add: int_of_digits_snoc)
  qed
qed

lemma str_nat_length: "n < 1000 \<Longrightarrow> length (str_nat n) \<le> 3"
  by (subst str_nat.simps, subst str_nat.simps, subst str_nat.simps) auto

lemma py_int_str_nat: "n < 1000 \<Longrightarrow> py_int (str_nat n) = Inr (int n)"
  using str_nat_digits[of n] str_nat_length[of n] by (simp add: py_int_def max_str_digits_def)

section \<open>Facts about the integers of addresses\<close>

lemma and_high24:
  assumes "0 \<le> n" "n < 2 ^ 32"
  shows "(n::int) AND 4294967040 = n - n mod 256"
proof -
  have c: "(4294967040::int) = push_bit 8 (mask 24)"
    by (simp add: mask_eq_exp_minus_1 push_bit_eq_mult)
  have t: "take_bit 32 n = n"
    using assms by (simp add: take_bit_int_eq_self)
  have hi: "bit n k \<Longrightarrow> k < 32" for k
    using t by (metis bit_take_bit_iff)
  have "n AND push_bit 8 (mask 24) = push_bit 8 (drop_bit 8 n)"
  proof (rule bit_eqI)
    fix k
    show "bit (n AND push_bit 8 (mask 24)) k = bit (push_bit 8 (drop_bit 8 n)) k"
      using hi[of k] by (auto simp: bit_simps)
  qed
  also have "\<dots> = n - n mod 256"
    by (simp add: push_bit_eq_mult drop_bit_eq_div minus_mod_eq_div_mult)
  finally show ?thesis
    using c by simp
qed

lemma byte_step: "0 \<le> d \<Longrightarrow> d < 256 \<Longrightarrow> (m * 256 + d) div 256 = (m::int) \<and> (m * 256 + d) mod 256 = d"
  by simp

lemma bytes_roundtrip:
  fixes a b c d :: int
  assumes "0 \<le> a" "a \<le> 255" "0 \<le> b" "b \<le> 255" "0 \<le> c" "c \<le> 255" "0 \<le> d" "d \<le> 255"
  defines "n \<equiv> ((a * 256 + b) * 256 + c) * 256 + d"
  shows "0 \<le> n \<and> n < 2 ^ 32"
    and "[n div 2 ^ 24 mod 256, n div 2 ^ 16 mod 256, n div 2 ^ 8 mod 256, n mod 256] = [a, b, c, d]"
    and "[(n - n mod 256) div 2 ^ 24 mod 256, (n - n mod 256) div 2 ^ 16 mod 256,
          (n - n mod 256) div 2 ^ 8 mod 256, (n - n mod 256) mod 256] = [a, b, c, 0]"
    and "n - n mod 256 = ((a * 256 + b) * 256 + c) * 256"
proof -
  define m1 where "m1 = a * 256 + b"
  define m2 where "m2 = m1 * 256 + c"
  have n: "n = m2 * 256 + d"
    by (simp add: n_def m1_def m2_def)
  have s1: "n div 256 = m2" "n mod 256 = d"
    unfolding n using byte_step[of d m2] assms by simp_all
  have s2: "m2 div 256 = m1" "m2 mod 256 = c"
    unfolding m2_def using byte_step[of c m1] assms by simp_all
  have s3: "m1 div 256 = a" "m1 mod 256 = b"
    unfolding m1_def using byte_step[of b a] assms by simp_all
  have s4: "a mod 256 = a"
    using assms by simp
  have p: "(2::int) ^ 8 = 256" "(2::int) ^ 16 = 256 * 256" "(2::int) ^ 24 = 256 * 256 * 256"
    by simp_all
  have dd: "x div (256 * 256) = x div 256 div 256" "x div (256 * 256 * 256) = x div 256 div 256 div 256"
    for x :: int
    by (simp_all add: div_mult2_eq)
  have bounds: "0 \<le> m1" "m1 < 2 ^ 16" "0 \<le> m2" "m2 < 2 ^ 24"
    using assms by (simp_all add: m1_def m2_def)
  show "0 \<le> n \<and> n < 2 ^ 32"
    unfolding n using bounds assms by simp
  show "[n div 2 ^ 24 mod 256, n div 2 ^ 16 mod 256, n div 2 ^ 8 mod 256, n mod 256] = [a, b, c, d]"
    unfolding p dd s1 s2 s3 s4 by simp
  have z: "n - n mod 256 = m2 * 256 + 0"
    using s1(2) n by simp
  have z1: "(m2 * 256 + 0) div 256 = m2" "(m2 * 256 + 0) mod 256 = 0"
    using byte_step[of 0 m2] by simp_all
  show "[(n - n mod 256) div 2 ^ 24 mod 256, (n - n mod 256) div 2 ^ 16 mod 256,
          (n - n mod 256) div 2 ^ 8 mod 256, (n - n mod 256) mod 256] = [a, b, c, 0]"
    unfolding z p dd z1 s2 s3 s4 by simp
  show "n - n mod 256 = ((a * 256 + b) * 256 + c) * 256"
    using z by (simp add: m1_def m2_def)
qed

section \<open>Facts about parsing IPv4\<close>

lemma parse_octet_Inr:
  assumes "parse_octet s = Inr v"
  shows "s \<noteq> [] \<and> list_all ascii_digit s \<and> length s \<le> 3 \<and> 0 \<le> v \<and> v \<le> 255 \<and> py_int s = Inr v"
proof -
  from assms have a: "isascii s \<and> isdigit s" and l: "length s \<le> 3"
    by (auto simp: parse_octet_def split: if_splits)
  then have d: "s \<noteq> []" "list_all ascii_digit s"
    using isascii_isdigit_iff[of s] by auto
  then have i: "py_int s = Inr (int_of_digits s)"
    using l by (simp add: py_int_def max_str_digits_def)
  with assms a l have "v = int_of_digits s" "v \<le> 255"
    by (auto simp: parse_octet_def split: if_splits)
  then show ?thesis
    using d l i int_of_digits_nonneg[OF d(2)] by simp
qed

lemma try_map4:
  assumes "try_map f [o1, o2, o3, o4] = Inr bs"
  shows "\<exists>a b c d. bs = [a, b, c, d] \<and> f o1 = Inr a \<and> f o2 = Inr b \<and> f o3 = Inr c \<and> f o4 = Inr d"
  using assms by (auto split: sum.splits)

lemma int_from_bytes4: "int_from_bytes [a, b, c, d] = ((a * 256 + b) * 256 + c) * 256 + d"
  by (simp add: int_from_bytes_def)

lemma v4_ip_int_from_string_Inr:
  assumes "v4_ip_int_from_string s = Inr n"
  shows "\<exists>o1 o2 o3 o4 a b c d. py_split CHR ''.'' s = [o1, o2, o3, o4]
           \<and> parse_octet o1 = Inr a \<and> parse_octet o2 = Inr b
           \<and> parse_octet o3 = Inr c \<and> parse_octet o4 = Inr d
           \<and> n = ((a * 256 + b) * 256 + c) * 256 + d"
proof -
  from assms have len: "length (py_split CHR ''.'' s) = 4"
    by (auto simp: v4_ip_int_from_string_def Let_def split: if_splits)
  then obtain o1 o2 o3 o4 where sp: "py_split CHR ''.'' s = [o1, o2, o3, o4]"
    by (auto simp: length_Suc_conv numeral_eq_Suc)
  from assms sp obtain bs where bs: "try_map parse_octet [o1, o2, o3, o4] = Inr bs"
    and n: "n = int_from_bytes bs"
    by (auto simp: v4_ip_int_from_string_def Let_def split: if_splits sum.splits)
  from try_map4[OF bs] n sp show ?thesis
    by (auto simp: int_from_bytes4)
qed

lemma netmask_24: "v4_make_netmask (MaskStr ''24'') = Inr (4294967040, 24)"
  by code_simp

lemma str_nat_24: "str_nat 24 = ''24''" "py_str 0 = ''0''"
  by code_simp+

section \<open>infer_segment_24\<close>

lemma IPv4Address_init_Inr:
  "IPv4Address_init ip = Inr n \<Longrightarrow> CHR ''/'' \<notin> set ip \<and> v4_ip_int_from_string ip = Inr n"
  by (auto simp: IPv4Address_init_def split: if_splits)

lemma ipaddress_ip_address_v4:
  "ipaddress_ip_address ip = Inr (IPv4Address n) \<longleftrightarrow> IPv4Address_init ip = Inr n"
  by (auto simp: ipaddress_ip_address_def split: sum.splits if_splits prod.splits)

lemma v4_octets:
  assumes "IPv4Address_init ip = Inr n"
  shows "\<exists>o1 o2 o3 o4 a b c d. py_split CHR ''.'' ip = [o1, o2, o3, o4]
           \<and> parse_octet o1 = Inr a \<and> parse_octet o2 = Inr b
           \<and> parse_octet o3 = Inr c \<and> parse_octet o4 = Inr d
           \<and> n = ((a * 256 + b) * 256 + c) * 256 + d
           \<and> 0 \<le> n \<and> n < 2 ^ 32
           \<and> to_bytes4 n = [a, b, c, d]
           \<and> to_bytes4 (n - n mod 256) = [a, b, c, 0]"
proof -
  from v4_ip_int_from_string_Inr[of ip n] IPv4Address_init_Inr[OF assms]
  obtain o1 o2 o3 o4 a b c d where sp: "py_split CHR ''.'' ip = [o1, o2, o3, o4]"
    and po: "parse_octet o1 = Inr a" "parse_octet o2 = Inr b"
            "parse_octet o3 = Inr c" "parse_octet o4 = Inr d"
    and n: "n = ((a * 256 + b) * 256 + c) * 256 + d"
    by blast
  have r: "0 \<le> a" "a \<le> 255" "0 \<le> b" "b \<le> 255" "0 \<le> c" "c \<le> 255" "0 \<le> d" "d \<le> 255"
    using po parse_octet_Inr by blast+
  have b: "0 \<le> n \<and> n < 2 ^ 32"
    unfolding n by (rule bytes_roundtrip(1)[OF r])
  have t1: "to_bytes4 n = [a, b, c, d]"
    unfolding to_bytes4_def n by (rule bytes_roundtrip(2)[OF r])
  have t2: "to_bytes4 (n - n mod 256) = [a, b, c, 0]"
    unfolding to_bytes4_def n by (rule bytes_roundtrip(3)[OF r])
  show ?thesis
    using sp po n b t1 t2 by blast
qed

lemma network_24_of_address:
  assumes "IPv4Address_init ip = Inr n"
  shows "IPv4Network_init (ip @ ''/24'') False = Inr (n - n mod 256, 24)"
proof -
  have ns: "CHR ''/'' \<notin> set ip"
    using IPv4Address_init_Inr[OF assms] by simp
  have "py_split CHR ''/'' (ip @ ''/24'') = [ip, ''24'']"
    using py_split_append[OF ns, of "''24''"] by simp
  then have sp: "split_addr_prefix 32 (ip @ ''/24'') = Inr (ip, MaskStr ''24'')"
    by (simp add: split_addr_prefix_def split_optional_netmask_def)
  have b: "0 \<le> n" "n < 2 ^ 32"
    using v4_octets[OF assms] by auto
  have m: "n AND 4294967040 = n - n mod 256"
    by (rule and_high24[OF b])
  have idem: "n - n mod 256 = n \<Longrightarrow> n AND 4294967040 = n"
    using m by simp
  show ?thesis
    using m by (auto simp: IPv4Network_init_def sp assms netmask_24)
qed

lemma py_join4: "py_join sep [p, q, r, s] = p @ sep @ q @ sep @ r @ sep @ s"
  by simp

text \<open>
  C6. For every string that \<open>ip_address\<close> parses as an IPv4 address, with octets
  \<open>a, b, c, d\<close>, \<open>infer_segment_24\<close> returns the text \<open>a.b.c.0/24\<close>, which is
  \<open>str\<close> of the IPv4 network with prefix length 24 whose address is the address with
  its last octet set to zero; for every string that \<open>ip_address\<close> parses as an IPv6
  address it returns the text \<open>IPv6\<close>.
\<close>

theorem C6_infer_segment_24:
  "(ipaddress_ip_address ip = Inr (IPv4Address n)
      \<longrightarrow> (\<exists>a b c d. try_map parse_octet (py_split CHR ''.'' ip) = Inr [a, b, c, d]
                    \<and> n = int_from_bytes [a, b, c, d]
                    \<and> infer_segment_24 ip
                        = Inr (py_str a @ ''.'' @ py_str b @ ''.'' @ py_str c @ ''.0/24'')
                    \<and> infer_segment_24 ip
                        = Inr (str_ip_net (IPv4Network (int_from_bytes [a, b, c, 0]) 24))))
   \<and> (ipaddress_ip_address ip = Inr (IPv6Address n6 scope_id)
      \<longrightarrow> infer_segment_24 ip = Inr ''IPv6'')"
proof -
  have v6: "infer_segment_24 ip = Inr ''IPv6''"
    if "ipaddress_ip_address ip = Inr (IPv6Address n6 scope_id)"
    using that by (simp add: infer_segment_24_def)
  have v4: "\<exists>a b c d. try_map parse_octet (py_split CHR ''.'' ip) = Inr [a, b, c, d]
                    \<and> n = int_from_bytes [a, b, c, d]
                    \<and> infer_segment_24 ip
                        = Inr (py_str a @ ''.'' @ py_str b @ ''.'' @ py_str c @ ''.0/24'')
                    \<and> infer_segment_24 ip
                        = Inr (str_ip_net (IPv4Network (int_from_bytes [a, b, c, 0]) 24))"
    if a4: "ipaddress_ip_address ip = Inr (IPv4Address n)"
  proof -
    have init: "IPv4Address_init ip = Inr n"
      using a4 by (simp add: ipaddress_ip_address_v4)
    from v4_octets[OF init]
    obtain o1 o2 o3 o4 a b c d where sp: "py_split CHR ''.'' ip = [o1, o2, o3, o4]"
      and po: "parse_octet o1 = Inr a" "parse_octet o2 = Inr b"
              "parse_octet o3 = Inr c" "parse_octet o4 = Inr d"
      and n: "n = ((a * 256 + b) * 256 + c) * 256 + d"
      and tb: "to_bytes4 (n - n mod 256) = [a, b, c, 0]"
      by blast
    have r: "0 \<le> a" "a \<le> 255" "0 \<le> b" "b \<le> 255" "0 \<le> c" "c \<le> 255"
      and rd: "0 \<le> d" "d \<le> 255"
      using po parse_octet_Inr by blast+
    have z: "n - n mod 256 = int_from_bytes [a, b, c, 0]"
      using bytes_roundtrip(4)[OF r(1-6) rd] n by (simp add: int_from_bytes4)
    have net: "ipaddress_ip_network (ip @ ''/24'') False = Inr (IPv4Network (n - n mod 256) 24)"
      by (simp add: ipaddress_ip_network_def network_24_of_address[OF init])
    have seg: "infer_segment_24 ip = Inr (str_ip_net (IPv4Network (n - n mod 256) 24))"
      by (simp add: infer_segment_24_def a4 net)
    have str: "str_ip_net (IPv4Network (n - n mod 256) 24)
                = py_str a @ ''.'' @ py_str b @ ''.'' @ py_str c @ ''.0/24''"
      by (simp add: v4_string_from_ip_int_def tb str_nat_24)
    have tm: "try_map parse_octet (py_split CHR ''.'' ip) = Inr [a, b, c, d]"
      by (simp add: sp po)
    show ?thesis
      using tm n seg str z by (auto simp: int_from_bytes4)
  qed
  show ?thesis
    using v4 v6 by blast
qed


lemma C6_examples:
  "ipaddress_ip_address ''192.168.56.10'' = Inr (IPv4Address 3232249866)"
  "try_map parse_octet (py_split CHR ''.'' ''192.168.56.10'') = Inr [192, 168, 56, 10]"
  "py_str 192 = ''192''" "py_str 168 = ''168''" "py_str 56 = ''56''"
  "ipaddress_ip_address ''::1'' = Inr (IPv6Address 1 None)"
  "ipaddress_ip_address ''fe80::1%eth0''
     = Inr (IPv6Address 338288524927261089654018896841347694593 (Some ''eth0''))"
  by code_simp+

theorem C6_infer_segment_24_witness:
  "infer_segment_24 ''192.168.56.10'' = Inr ''192.168.56.0/24''
   \<and> infer_segment_24 ''::1'' = Inr ''IPv6''
   \<and> infer_segment_24 ''fe80::1%eth0'' = Inr ''IPv6''"
proof -
  from C6_infer_segment_24[of "''192.168.56.10''" 3232249866] C6_examples(1)
  obtain a b c d where
    tm: "try_map parse_octet (py_split CHR ''.'' ''192.168.56.10'') = Inr [a, b, c, d]"
    and seg: "infer_segment_24 ''192.168.56.10''
                = Inr (py_str a @ ''.'' @ py_str b @ ''.'' @ py_str c @ ''.0/24'')"
    by blast
  from tm[unfolded C6_examples(2)] have "a = 192" "b = 168" "c = 56"
    by simp_all
  with seg have s4: "infer_segment_24 ''192.168.56.10'' = Inr ''192.168.56.0/24''"
    by (simp add: C6_examples)
  have s6: "infer_segment_24 ''::1'' = Inr ''IPv6''"
    using C6_infer_segment_24[of "''::1''" _ 1 None] C6_examples(6) by blast
  have s6': "infer_segment_24 ''fe80::1%eth0'' = Inr ''IPv6''"
    using C6_infer_segment_24[of "''fe80::1%eth0''" _ _ "Some ''eth0''"] C6_examples(7) by blast
  show ?thesis
    using s4 s6 s6' by simp
qed

section \<open>get_rows\<close>

lemma str_nat_hd_digit: "ascii_digit (hd (str_nat n))"
  using str_nat_digits[of n] by (cases "str_nat n") auto

lemma py_str_nonneg_hd: "0 \<le> a \<Longrightarrow> py_str a \<noteq> [] \<and> ascii_digit (hd (py_str a))"
  using str_nat_digits[of "nat a"] str_nat_hd_digit[of "nat a"] by (simp add: py_str_def)

lemma py_int_py_str: "0 \<le> n \<Longrightarrow> n \<le> 255 \<Longrightarrow> py_int (py_str n) = Inr n"
  using py_int_str_nat[of "nat n"] by (simp add: py_str_def)

lemma infer_segment_24_v4:
  assumes "IPv4Address_init ip = Inr n"
  shows "\<exists>o1 o2 o3 o4 a b c d. py_split CHR ''.'' ip = [o1, o2, o3, o4]
           \<and> parse_octet o3 = Inr c \<and> 0 \<le> a
           \<and> n div 2 ^ 8 mod 256 = c
           \<and> infer_segment_24 ip
                = Inr (py_str a @ ''.'' @ py_str b @ ''.'' @ py_str c @ ''.0/24'')"
proof -
  from v4_octets[OF assms]
  obtain o1 o2 o3 o4 a b c d where sp: "py_split CHR ''.'' ip = [o1, o2, o3, o4]"
    and po: "parse_octet o1 = Inr a" "parse_octet o3 = Inr c"
    and t1: "to_bytes4 n = [a, b, c, d]"
    and tb: "to_bytes4 (n - n mod 256) = [a, b, c, 0]"
    by blast
  have a4: "ipaddress_ip_address ip = Inr (IPv4Address n)"
    using assms by (simp add: ipaddress_ip_address_v4)
  have net: "ipaddress_ip_network (ip @ ''/24'') False = Inr (IPv4Network (n - n mod 256) 24)"
    by (simp add: ipaddress_ip_network_def network_24_of_address[OF assms])
  have seg: "infer_segment_24 ip
                = Inr (py_str a @ ''.'' @ py_str b @ ''.'' @ py_str c @ ''.0/24'')"
    by (simp add: infer_segment_24_def a4 net v4_string_from_ip_int_def tb str_nat_24)
  have c: "n div 2 ^ 8 mod 256 = c"
    using t1 by (simp add: to_bytes4_def)
  show ?thesis
    using sp po seg c parse_octet_Inr[OF po(1)] by blast
qed

lemma split1_token: "py_split1 CHR '':'' (''THIRD_OCTET:'' @ s) ! 1 = s"
  by (simp add: py_split1_def)

lemma row_passes_third_octet:
  assumes v: "returns (ipaddress_ip_address (ip_address r))"
    and n: "0 \<le> n" "n \<le> 255"
  shows "row_passes (Some (''THIRD_OCTET:'' @ py_str n)) r (segment_of r)
           = Inr (third_octet_of (ip_address r) = Some n)"
proof -
  define f where "f = ''THIRD_OCTET:'' @ py_str n"
  from v obtain a where a: "ipaddress_ip_address (ip_address r) = Inr a"
    by (auto simp: returns_def split: sum.splits)
  have st: "startswith f ''THIRD_OCTET:''" and fne: "f \<noteq> []"
    by (simp_all add: startswith_def f_def)
  have rq: "py_int (py_split1 CHR '':'' f ! 1) = Inr n"
    unfolding f_def split1_token by (rule py_int_py_str[OF n])
  have "row_passes (Some f) r (segment_of r) = Inr (third_octet_of (ip_address r) = Some n)"
  proof (cases a)
    case (IPv6Address m sc)
    then have "segment_of r = ''IPv6''"
      using a by (simp add: segment_of_def infer_segment_24_def)
    moreover have "third_octet_of (ip_address r) = None"
      using a IPv6Address by (simp add: third_octet_of_def)
    ultimately show ?thesis
      using st fne by (simp add: row_passes_def)
  next
    case (IPv4Address m)
    then have init: "IPv4Address_init (ip_address r) = Inr m"
      using a by (simp add: ipaddress_ip_address_v4)
    from infer_segment_24_v4[OF init]
    obtain o1 o2 o3 o4 a' b c d where sp: "py_split CHR ''.'' (ip_address r) = [o1, o2, o3, o4]"
      and po: "parse_octet o3 = Inr c" and a0: "0 \<le> a'"
      and c: "m div 2 ^ 8 mod 256 = c"
      and seg: "infer_segment_24 (ip_address r)
                = Inr (py_str a' @ ''.'' @ py_str b @ ''.'' @ py_str c @ ''.0/24'')"
      by auto
    have "hd (segment_of r) = hd (py_str a')"
      using seg py_str_nonneg_hd[OF a0] by (simp add: segment_of_def)
    then have "ascii_digit (hd (segment_of r))"
      using py_str_nonneg_hd[OF a0] by simp
    then have ne: "segment_of r \<noteq> ''IPv6''"
      using ascii_digit_not_special[of "hd (segment_of r)"] by auto
    have i3: "py_int o3 = Inr c"
      using parse_octet_Inr[OF po] by simp
    have t: "third_octet_of (ip_address r) = Some c"
      using a IPv4Address c by (simp add: third_octet_of_def)
    show ?thesis
      using st fne ne i3 t rq by (simp add: row_passes_def py_nth_def sp)
  qed
  then show ?thesis
    unfolding f_def .
qed

lemma infer_segment_24_returns:
  assumes "returns (ipaddress_ip_address ip)"
  shows "\<exists>seg. infer_segment_24 ip = Inr seg"
proof -
  from assms obtain a where a: "ipaddress_ip_address ip = Inr a"
    by (auto simp: returns_def split: sum.splits)
  show ?thesis
  proof (cases a)
    case (IPv6Address m sc)
    then show ?thesis using a by (simp add: infer_segment_24_def)
  next
    case (IPv4Address m)
    then have "IPv4Address_init ip = Inr m"
      using a by (simp add: ipaddress_ip_address_v4)
    from infer_segment_24_v4[OF this] obtain seg where "infer_segment_24 ip = Inr seg"
      by auto
    then show ?thesis
      by simp
  qed
qed

lemma render_rows_filter:
  assumes "list_all (\<lambda>r. returns (ipaddress_ip_address (ip_address r))) rows"
    and "\<And>r. r \<in> set rows \<Longrightarrow> row_passes f r (segment_of r) = Inr (keep r)"
  shows "render_rows f rows = Inr (map rendered (filter keep rows))"
  using assms
proof (induction rows)
  case Nil
  then show ?case by simp
next
  case (Cons r rows)
  from Cons.prems(1) obtain seg where seg: "infer_segment_24 (ip_address r) = Inr seg"
    using infer_segment_24_returns[of "ip_address r"] by auto
  then have so: "segment_of r = seg"
    by (simp add: segment_of_def)
  have p: "row_passes f r seg = Inr (keep r)"
    using Cons.prems(2)[of r] so by simp
  have ih: "render_rows f rows = Inr (map rendered (filter keep rows))"
    using Cons by simp
  have rr: "(selected_columns r)(''segment'' \<mapsto> Some seg) = rendered r"
    by (simp add: rendered_def selected_columns_def so)
  show ?case
    by (simp add: seg p ih rr)
qed

lemma select_order:
  "sorted_wrt (\<lambda>r r'. created_at r' \<le> created_at r) (sql_select_order_by_created_at_desc db)"
  "mset (sql_select_order_by_created_at_desc db) = mset db"
  "filter (\<lambda>r. created_at r = t) (sql_select_order_by_created_at_desc db)
     = filter (\<lambda>r. created_at r = t) db"
proof -
  have "sorted (map created_at (sort_key created_at (rev db)))"
    by simp
  then have "sorted_wrt (\<lambda>r r'. created_at r \<le> created_at r') (sort_key created_at (rev db))"
    by (simp add: sorted_wrt_map)
  then show "sorted_wrt (\<lambda>r r'. created_at r' \<le> created_at r) (sql_select_order_by_created_at_desc db)"
    by (simp add: sql_select_order_by_created_at_desc_def sorted_wrt_rev)
  show "mset (sql_select_order_by_created_at_desc db) = mset db"
    by (simp add: sql_select_order_by_created_at_desc_def)
  have "filter (\<lambda>r. created_at r = t) (sort_key created_at (rev db))
          = filter (\<lambda>r. created_at r = t) (rev db)"
    by (rule sort_key_stable)
  then show "filter (\<lambda>r. created_at r = t) (sql_select_order_by_created_at_desc db)
     = filter (\<lambda>r. created_at r = t) db"
    by (simp add: sql_select_order_by_created_at_desc_def rev_filter[symmetric])
qed

lemma stored_valid_select:
  "stored_valid db \<Longrightarrow>
   list_all (\<lambda>r. returns (ipaddress_ip_address (ip_address r))) (sql_select_order_by_created_at_desc db)"
  by (simp add: stored_valid_def list_all_iff sql_select_order_by_created_at_desc_def)

lemma stored_valid_segment:
  assumes "stored_valid db"
  shows "list_all (\<lambda>r. infer_segment_24 (ip_address r) = Inr (segment_of r)) db"
proof -
  have "infer_segment_24 (ip_address r) = Inr (segment_of r)" if "r \<in> set db" for r
  proof -
    have "returns (ipaddress_ip_address (ip_address r))"
      using assms that by (simp add: stored_valid_def list_all_iff)
    then obtain seg where "infer_segment_24 (ip_address r) = Inr seg"
      using infer_segment_24_returns[of "ip_address r"] by auto
    then show ?thesis
      by (simp add: segment_of_def)
  qed
  then show ?thesis
    by (simp add: list_all_iff)
qed

text \<open>
  C8. On a table whose stored addresses all parse: the rows \<open>get_rows\<close> works on are
  the rows of the table (as a multiset) ordered by \<open>created_at\<close>, the newest first, rows
  created at the same instant in their order of insertion; the segment of each row is the
  value \<open>infer_segment_24\<close> returns on its address; without a filter \<open>get_rows\<close> returns
  every row, in that order, each as the dictionary \<open>rendered\<close> of its ten columns and its
  segment; with the token \<open>THIRD_OCTET:n\<close> (\<open>0 \<le> n \<le> 255\<close>) it returns, in that order,
  exactly the rows whose address is an IPv4 address with third octet \<open>n\<close>, so no IPv6 row;
  with any other non-empty token it returns, in that order, exactly the rows whose segment
  is the token.
\<close>

theorem C8_get_rows:
  assumes "stored_valid db"
  shows "sorted_wrt (\<lambda>r r'. created_at r' \<le> created_at r) (sql_select_order_by_created_at_desc db)
     \<and> mset (sql_select_order_by_created_at_desc db) = mset db
     \<and> filter (\<lambda>r. created_at r = t) (sql_select_order_by_created_at_desc db)
         = filter (\<lambda>r. created_at r = t) db
     \<and> list_all (\<lambda>r. infer_segment_24 (ip_address r) = Inr (segment_of r)) db
     \<and> get_rows None db = Inr (map rendered (sql_select_order_by_created_at_desc db))
     \<and> (0 \<le> n \<and> n \<le> 255 \<longrightarrow>
          get_rows (Some (''THIRD_OCTET:'' @ py_str n)) db
            = Inr (map rendered
                     (filter (\<lambda>r. third_octet_of (ip_address r) = Some n)
                        (sql_select_order_by_created_at_desc db))))
     \<and> (f \<noteq> [] \<and> \<not> startswith f ''THIRD_OCTET:'' \<longrightarrow>
          get_rows (Some f) db
            = Inr (map rendered
                     (filter (\<lambda>r. segment_of r = f) (sql_select_order_by_created_at_desc db))))"
proof -
  let ?rows = "sql_select_order_by_created_at_desc db"
  note v = stored_valid_select[OF assms]
  have all: "get_rows None db = Inr (map rendered ?rows)"
    using render_rows_filter[OF v, of None "\<lambda>r. True"]
    by (simp add: get_rows_def row_passes_def)
  have third: "get_rows (Some (''THIRD_OCTET:'' @ py_str n)) db
            = Inr (map rendered (filter (\<lambda>r. third_octet_of (ip_address r) = Some n) ?rows))"
    if "0 \<le> n" "n \<le> 255"
    unfolding get_rows_def
  proof (rule render_rows_filter[OF v])
    fix r assume "r \<in> set ?rows"
    then have "returns (ipaddress_ip_address (ip_address r))"
      using v by (simp add: list_all_iff)
    then show "row_passes (Some (''THIRD_OCTET:'' @ py_str n)) r (segment_of r)
           = Inr (third_octet_of (ip_address r) = Some n)"
      by (rule row_passes_third_octet[OF _ that])
  qed
  have cidr: "get_rows (Some f) db = Inr (map rendered (filter (\<lambda>r. segment_of r = f) ?rows))"
    if "f \<noteq> []" "\<not> startswith f ''THIRD_OCTET:''"
    unfolding get_rows_def
    by (rule render_rows_filter[OF v]) (use that in \<open>simp add: row_passes_def\<close>)
  show ?thesis
    using select_order(1,2)[of db] select_order(3)[where t=t and db=db]
      stored_valid_segment[OF assms] all third cidr by blast
qed


lemma three_rows_facts:
  "stored_valid three_rows"
  "sql_select_order_by_created_at_desc three_rows = [three_rows ! Suc 0, three_rows ! 2, three_rows ! 0]"
  "third_octet_of (ip_address (three_rows ! 0)) = Some 56"
  "third_octet_of (ip_address (three_rows ! Suc 0)) = Some 59"
  "third_octet_of (ip_address (three_rows ! 2)) = None"
  "segment_of (three_rows ! 0) = ''192.168.56.0/24''"
  "segment_of (three_rows ! Suc 0) = ''192.168.59.0/24''"
  "segment_of (three_rows ! 2) = ''IPv6''"
  "py_str 56 = ''56''"
  by code_simp+

lemma three_rows_shown:
  "shown (rendered (three_rows ! 0))
     = [Some (Some ''192.168.56.10''), Some (Some ''gw''), Some None, Some (Some ''OK''),
        Some (Some ''192.168.56.0/24''), None]"
  "shown (rendered (three_rows ! Suc 0))
     = [Some (Some ''192.168.59.20''), Some None, Some None, Some None,
        Some (Some ''192.168.59.0/24''), None]"
  "shown (rendered (three_rows ! 2))
     = [Some (Some ''fe80::1''), Some None, Some (Some ''ROUTER''), Some None,
        Some (Some ''IPv6''), None]"
  unfolding shown_def rendered_def three_rows_facts
  by (simp_all add: three_rows_def fresh_row_def)

theorem C8_get_rows_witness:
  "stored_valid three_rows
   \<and> map created_at three_rows
       = [''2024-01-01T10:00:00+00:00'', ''2024-01-02T10:00:00+00:00'',
          ''2024-01-02T10:00:00+00:00'']
   \<and> map_sum id (map shown) (get_rows None three_rows)
       = Inr [[Some (Some ''192.168.59.20''), Some None, Some None, Some None,
               Some (Some ''192.168.59.0/24''), None],
              [Some (Some ''fe80::1''), Some None, Some (Some ''ROUTER''), Some None,
               Some (Some ''IPv6''), None],
              [Some (Some ''192.168.56.10''), Some (Some ''gw''), Some None, Some (Some ''OK''),
               Some (Some ''192.168.56.0/24''), None]]
   \<and> map_sum id (map shown) (get_rows (Some ''THIRD_OCTET:56'') three_rows)
       = Inr [[Some (Some ''192.168.56.10''), Some (Some ''gw''), Some None, Some (Some ''OK''),
               Some (Some ''192.168.56.0/24''), None]]
   \<and> map_sum id (map shown) (get_rows (Some ''192.168.59.0/24'') three_rows)
       = Inr [[Some (Some ''192.168.59.20''), Some None, Some None, Some None,
               Some (Some ''192.168.59.0/24''), None]]"
proof -
  have f: "''192.168.59.0/24'' \<noteq> [] \<and> \<not> startswith ''192.168.59.0/24'' ''THIRD_OCTET:''"
    by (simp add: startswith_def)
  have n: "(0::int) \<le> 56 \<and> (56::int) \<le> 255"
    by simp
  have c: "map created_at three_rows
       = [''2024-01-01T10:00:00+00:00'', ''2024-01-02T10:00:00+00:00'',
          ''2024-01-02T10:00:00+00:00'']"
    by (simp add: three_rows_def fresh_row_def)
  from C8_get_rows[OF three_rows_facts(1), of _ 56 "''192.168.59.0/24''"] f n
  have "get_rows None three_rows = Inr (map rendered (sql_select_order_by_created_at_desc three_rows))"
    and "get_rows (Some (''THIRD_OCTET:'' @ py_str 56)) three_rows
            = Inr (map rendered
                     (filter (\<lambda>r. third_octet_of (ip_address r) = Some 56)
                        (sql_select_order_by_created_at_desc three_rows)))"
    and "get_rows (Some ''192.168.59.0/24'') three_rows
            = Inr (map rendered
                     (filter (\<lambda>r. segment_of r = ''192.168.59.0/24'')
                        (sql_select_order_by_created_at_desc three_rows)))"
    by blast+
  then show ?thesis
    using c by (simp add: three_rows_facts three_rows_shown)
qed

subsection \<open>The table that the operations keep\<close>

lemma is_valid_ip_returns: "is_valid_ip ip \<longleftrightarrow> returns (ipaddress_ip_address (strip ip))"
  by (simp add: is_valid_ip_def returns_def split: sum.splits)

lemma stored_valid_empty: "stored_valid []"
  by (simp add: stored_valid_def)

lemma register_ip_stored_valid:
  "stored_valid db \<Longrightarrow> stored_valid (snd (register_ip now ip al db))"
proof (cases "is_valid_ip ip")
  case False
  assume "stored_valid db"
  then show ?thesis
    using register_invalid[OF False] by simp
next
  case True
  assume v: "stored_valid db"
  show ?thesis
  proof (cases "list_ex (\<lambda>r. ip_address r = strip ip) db")
    case True
    then show ?thesis
      using register_duplicate[OF \<open>is_valid_ip ip\<close> True] v by simp
  next
    case False
    then show ?thesis
      using register_fresh[OF \<open>is_valid_ip ip\<close> False] v \<open>is_valid_ip ip\<close>
      by (simp add: stored_valid_def is_valid_ip_returns fresh_row_def)
  qed
qed

lemma update_host_details_stored_valid:
  "stored_valid db \<Longrightarrow> stored_valid (snd (update_host_details ip hn ht loc nt al db))"
  by (auto simp: update_host_details_def stored_valid_def sql_update_details_def list_all_iff
      split: option.splits)

section \<open>normalize_segment_filter\<close>






lemma v4_ip_int_from_string_error: "v4_ip_int_from_string s = Inl e \<Longrightarrow> e = AddressValueError"
  by (auto simp: v4_ip_int_from_string_def Let_def split: if_splits sum.splits)

lemma IPv4Address_init_error: "IPv4Address_init s = Inl e \<Longrightarrow> e = AddressValueError"
  by (auto simp: IPv4Address_init_def dest: v4_ip_int_from_string_error split: if_splits)


lemma find_skip_index_error: "find_skip_index ps = Inl e \<Longrightarrow> e = AddressValueError"
  by (auto simp: find_skip_index_def split: list.splits)

lemma v6_part_counts_error: "v6_part_counts ps k = Inl e \<Longrightarrow> e = AddressValueError"
  by (auto simp: v6_part_counts_def Let_def split: option.splits if_splits)

lemma v6_ip_int_from_string_error: "v6_ip_int_from_string s = Inl e \<Longrightarrow> e = AddressValueError"
  unfolding v6_ip_int_from_string_def Let_def
  by (auto dest: find_skip_index_error v6_part_counts_error
      split: if_splits sum.splits prod.splits)

lemma split_scope_id_error: "split_scope_id s = Inl e \<Longrightarrow> e = AddressValueError"
  by (auto simp: split_scope_id_def split: prod.splits if_splits)

lemma IPv6Address_init_error: "IPv6Address_init s = Inl e \<Longrightarrow> e = AddressValueError"
  by (auto simp: IPv6Address_init_def dest: split_scope_id_error v6_ip_int_from_string_error
      split: if_splits sum.splits prod.splits)



lemma ipaddress_ip_address_raises: "ipaddress_ip_address s = Inl e \<Longrightarrow> e = ValueError"
  by (auto simp: ipaddress_ip_address_def is_ip_error_def
      dest: IPv4Address_init_error IPv6Address_init_error
      split: sum.splits if_splits prod.splits)





















end
